theory Spec2Isabelle
  imports Main
begin

section \<open>JavaScript strings\<close>

text \<open>
  A JavaScript string is a sequence of UTF-16 code units.  The model keeps the code units
  below 256 (ASCII and Latin-1), one \<^typ>\<open>char\<close> each; the emoji of the canned texts
  are left out of the string constants below.  \<open>toLowerCase\<close> maps \<open>A-Z\<close> and the
  Latin-1 capitals to their small letters; \<open>trim\<close> removes the white space and line
  terminators of that range from both ends.
\<close>

definition toLowerChar :: "char \<Rightarrow> char" where
  "toLowerChar c =
     (let n = (of_char c :: nat)
      in if (65 \<le> n \<and> n \<le> 90) \<or> (192 \<le> n \<and> n \<le> 222 \<and> n \<noteq> 215)
         then char_of (n + 32) else c)"

definition toLowerCase :: "string \<Rightarrow> string" where
  "toLowerCase s = map toLowerChar s"

definition isWhitespace :: "char \<Rightarrow> bool" where
  "isWhitespace c = ((of_char c :: nat) \<in> {9, 10, 11, 12, 13, 32, 160})"

definition trim :: "string \<Rightarrow> string" where
  "trim s = rev (dropWhile isWhitespace (rev (dropWhile isWhitespace s)))"

definition startsWith :: "string \<Rightarrow> string \<Rightarrow> bool" where
  "startsWith s p = (take (length p) s = p)"

text \<open>\<open>s.includes(p)\<close> (the name \<open>includes\<close> is taken by Isabelle): \<open>p\<close> occurs in \<open>s\<close> at some index.\<close>

fun includes_str :: "string \<Rightarrow> string \<Rightarrow> bool" where
  "includes_str [] p = (p = [])"
| "includes_str (c # cs) p = (startsWith (c # cs) p \<or> includes_str cs p)"

text \<open>\<open>s.substring(a, b)\<close> and \<open>s.substring(a)\<close> for \<open>0 \<le> a \<le> b\<close>.\<close>

definition substring :: "string \<Rightarrow> nat \<Rightarrow> nat \<Rightarrow> string" where
  "substring s a b = take (b - a) (drop a s)"

definition substringFrom :: "string \<Rightarrow> nat \<Rightarrow> string" where
  "substringFrom s a = drop a s"

text \<open>
  \<open>s.lastIndexOf(p, pos)\<close>: the greatest index \<open>i \<le> min pos (length s - length p)\<close> at
  which \<open>p\<close> occurs in \<open>s\<close>, and \<open>-1\<close> when there is none.
\<close>

fun lastIndexFrom :: "string \<Rightarrow> string \<Rightarrow> nat \<Rightarrow> int" where
  "lastIndexFrom s p 0 = (if startsWith s p then 0 else - 1)"
| "lastIndexFrom s p (Suc i) =
     (if startsWith (drop (Suc i) s) p then int (Suc i) else lastIndexFrom s p i)"

definition lastIndexOf :: "string \<Rightarrow> string \<Rightarrow> nat \<Rightarrow> int" where
  "lastIndexOf s p pos =
     (if length s < length p then - 1
      else lastIndexFrom s p (min pos (length s - length p)))"

section \<open>Configuration (config/index.js)\<close>

definition crisisKeywords :: "string list" where
  "crisisKeywords =
     [''suicide'', ''kill myself'', ''end it all'', ''want to die'', ''hurt myself'',
      ''self harm'', ''self-harm'', ''can't go on'', ''end my life'',
      ''no reason to live'', ''better off dead'', ''kill me'']"

definition journalPrefixes :: "string list" where
  "journalPrefixes = [''journal:'', ''j:'']"

text \<open>The onboarding stages, the numbers of \<open>config.onboardingStages\<close>.\<close>

definition INITIAL :: nat where "INITIAL = 0"
definition ASK_NAME :: nat where "ASK_NAME = 1"
definition ASK_REASON :: nat where "ASK_REASON = 2"
definition ASK_CHECKIN :: nat where "ASK_CHECKIN = 3"
definition COMPLETE :: nat where "COMPLETE = 4"

section \<open>Check-in preference parsing (services/onboarding.js)\<close>

definition positiveWords :: "string list" where
  "positiveWords =
     [''yes'', ''sure'', ''okay'', ''ok'', ''yeah'', ''yep'', ''please'', ''would love'',
      ''sounds good'']"

definition negativeWords :: "string list" where
  "negativeWords = [''no'', ''nope'', ''don't'', ''not really'', ''pass'']"

text \<open>
  \<open>isCheckInResponse\<close> and \<open>parseCheckInPreference\<close>.  The guard \<open>!message\<close> is the
  test for the empty string; the two \<open>for\<close> loops return at the first word found.
\<close>

definition isCheckInResponse :: "string \<Rightarrow> bool" where
  "isCheckInResponse message =
     (if message = [] then False
      else let lower = toLowerCase message
           in includes_str lower ''yes'' \<or> includes_str lower ''no'' \<or>
              includes_str lower ''sure'' \<or> includes_str lower ''okay'' \<or>
              includes_str lower ''don't'' \<or> includes_str lower ''please'')"

definition parseCheckInPreference :: "string \<Rightarrow> bool" where
  "parseCheckInPreference message =
     (if message = [] then False
      else let lower = toLowerCase message
           in if list_ex (includes_str lower) positiveWords then True
              else if list_ex (includes_str lower) negativeWords then False
              else True)"

section \<open>Crisis keyword layer (prompts/crisisPrompt.js)\<close>

definition containsCrisisKeyword :: "string \<Rightarrow> bool" where
  "containsCrisisKeyword message =
     (if message = [] then False
      else let lowerMessage = toLowerCase message
           in list_ex (\<lambda>keyword. includes_str lowerMessage (toLowerCase keyword)) crisisKeywords)"

section \<open>Outbound splitting (handlers/messageHandler.js)\<close>

text \<open>
  The search for a break point in the body of the loop of \<open>splitMessage\<close>.  The
  comparison \<open>breakPoint < maxLength / 2\<close> is one of real numbers, written here as
  \<open>2 * breakPoint < maxLength\<close>.
\<close>

definition splitMessage_breakPoint :: "string \<Rightarrow> nat \<Rightarrow> int" where
  "splitMessage_breakPoint remaining maxLength =
     (let breakPoint = lastIndexOf remaining [CHR 0x0A, CHR 0x0A] maxLength;
          breakPoint = (if breakPoint = - 1 \<or> 2 * breakPoint < int maxLength
                        then lastIndexOf remaining [CHR 0x0A] maxLength else breakPoint);
          breakPoint = (if breakPoint = - 1 \<or> 2 * breakPoint < int maxLength
                        then lastIndexOf remaining ''. '' maxLength else breakPoint);
          breakPoint = (if breakPoint = - 1 \<or> 2 * breakPoint < int maxLength
                        then lastIndexOf remaining '' '' maxLength else breakPoint)
      in if breakPoint = - 1 then int maxLength else breakPoint)"

lemma lastIndexFrom_lower: "- 1 \<le> lastIndexFrom s p i"
  by (induction i) auto

lemma lastIndexOf_lower: "- 1 \<le> lastIndexOf s p pos"
  by (simp add: lastIndexOf_def lastIndexFrom_lower)

lemma breakPoint_chain_nonneg:
  fixes a b c d :: int
  assumes "- 1 \<le> a" "- 1 \<le> b" "- 1 \<le> c" "- 1 \<le> d"
  shows "0 \<le> (let breakPoint = a;
          breakPoint = (if breakPoint = - 1 \<or> 2 * breakPoint < int m then b else breakPoint);
          breakPoint = (if breakPoint = - 1 \<or> 2 * breakPoint < int m then c else breakPoint);
          breakPoint = (if breakPoint = - 1 \<or> 2 * breakPoint < int m then d else breakPoint)
      in if breakPoint = - 1 then int m else breakPoint)"
  using assms by (simp add: Let_def)

lemma splitMessage_breakPoint_nonneg: "0 \<le> splitMessage_breakPoint remaining maxLength"
  unfolding splitMessage_breakPoint_def
  by (rule breakPoint_chain_nonneg) (rule lastIndexOf_lower)+

lemma length_trim_le: "length (trim s) \<le> length s"
proof -
  have "length (trim s) \<le> length (rev (dropWhile isWhitespace s))"
    unfolding trim_def length_rev [of "dropWhile isWhitespace (rev (dropWhile isWhitespace s))"]
    by (rule length_dropWhile_le)
  also have "\<dots> \<le> length s" by (simp add: length_dropWhile_le)
  finally show ?thesis .
qed

text \<open>
  The \<open>while\<close> loop: the segments are pushed in order, so the list of segments is the
  first one followed by those of the rest.  Every round removes at least one character,
  which is why the loop ends.
\<close>

function splitMessage_loop :: "string \<Rightarrow> nat \<Rightarrow> string list" where
  "splitMessage_loop remaining maxLength =
     (if length remaining > 0 then
        if length remaining \<le> maxLength then [remaining]
        else let breakPoint = splitMessage_breakPoint remaining maxLength
             in trim (substring remaining 0 (nat (breakPoint + 1))) #
                splitMessage_loop (trim (substringFrom remaining (nat (breakPoint + 1))))
                  maxLength
      else [])"
  by pat_completeness auto

termination splitMessage_loop
proof (relation "measure (\<lambda>(remaining, maxLength). length remaining)")
  show "wf (measure (\<lambda>(remaining, maxLength). length remaining))" by simp
next
  fix remaining :: string and maxLength :: nat and x :: int
  assume pos: "0 < length remaining" and "x = splitMessage_breakPoint remaining maxLength"
  then have "0 < nat (x + 1)"
    using splitMessage_breakPoint_nonneg [of remaining maxLength] by simp
  with pos have "length (drop (nat (x + 1)) remaining) < length remaining" by simp
  moreover have "length (trim (drop (nat (x + 1)) remaining))
      \<le> length (drop (nat (x + 1)) remaining)"
    by (rule length_trim_le)
  ultimately show "((trim (substringFrom remaining (nat (x + 1))), maxLength),
      remaining, maxLength) \<in> measure (\<lambda>(remaining, maxLength). length remaining)"
    by (simp add: substringFrom_def)
qed

definition splitMessage :: "string \<Rightarrow> nat \<Rightarrow> string list" where
  "splitMessage text maxLength =
     (if length text \<le> maxLength then [text] else splitMessage_loop text maxLength)"

section \<open>State, store and external services\<close>

text \<open>
  The records of the store (services/redis.js), with the fields the functions below read
  or write.  A user written by \<open>updateUser\<close> when no profile exists has only the updated
  fields; such a profile has no \<open>stats\<close>, and reading \<open>user.stats.messageCount\<close> from
  it throws a TypeError.
\<close>

type_synonym phone = string

record stats =
  lastActive :: int
  messageCount :: nat
  journalCount :: nat

record user =
  name :: "string option"
  onboardingStage :: nat
  stats :: "stats option"

record conversationMessage =
  role :: string
  mcontent :: string
  mtype :: string
  mtimestamp :: int

record journalEntry =
  jcontent :: string
  prompted :: bool
  jtimestamp :: int

record followUp =
  ftype :: string
  ftime :: int
  fcontextRiskLevel :: string
  fcontextScheduledAt :: int

record schedule =
  nextCheckIn :: "int option"
  nextJournalPrompt :: "int option"
  followUps :: "followUp list"

record crisisLogEntry =
  logMessage :: string
  logRiskLevel :: string
  logKeywordMatch :: bool
  logTimestamp :: int
  handled :: bool

text \<open>
  The calls of the services a handler makes are recorded in \<open>calls\<close>, a trace that the
  source does not have and that no function reads; \<open>sent\<close> holds the texts the delivery
  gateway accepted, in order.
\<close>

datatype call = DetectCrisis | GenerateResponse | ProcessOnboarding | SaveJournalEntry
  | AdvanceStage nat | SetupCheckIns | SendResponse "string option"
  | SendProactiveMessage string | SendJournalPrompt

text \<open>
  A continuation that a handler starts and does not await runs in the background, while
  the handler goes on and after it has returned.  The only one is the callback that
  \<open>updateUserStats\<close> attaches to \<open>detectEmotionalState(message)\<close>.  It is
  \<open>Started\<close> with the profile that \<open>updateUserStats\<close> read; once the emotional state
  has arrived and \<open>updateUser\<close> has read the stored profile it holds the whole profile
  that \<open>updateUser\<close> is about to write (\<open>Fetched\<close>); after the write it is
  \<open>Finished\<close>.  \<open>background\<close> holds the continuations in the order they were started.
\<close>

datatype continuation = Started phone user | Fetched phone user | Finished

record world =
  users :: "phone \<rightharpoonup> user"
  conversations :: "phone \<Rightarrow> conversationMessage list"
  journals :: "phone \<times> int \<rightharpoonup> journalEntry list"
  schedules :: "phone \<rightharpoonup> schedule"
  crisisLogs :: "phone \<times> int \<rightharpoonup> crisisLogEntry"
  sent :: "(phone \<times> string) list"
  calls :: "call list"
  background :: "continuation list"

text \<open>
  What the world outside answers during one event: the clock, the language model, the
  delivery gateway and \<open>Math.random\<close>.  \<open>follow_up_hours\<close> of an assessment is
  \<open>null\<close>, absent or a number (whole hours in the model).
\<close>

datatype exn = TypeError | GatewayError

datatype jsnumber = JNull | JUndefined | JNumber int

record assessment =
  level :: string
  reasoning :: string
  follow_up_hours :: jsnumber

datatype assess_outcome = AssessApiError | AssessUnparsable | AssessParsed assessment

datatype chat_outcome = ChatApiError nat | ChatText string

datatype send_outcome = Delivered | Rejected string | SendThrows

record env =
  now :: int
  tzOffset :: int
  clientConfigured :: bool
  assessReply :: assess_outcome
  chatReply :: chat_outcome
  proactiveReply :: "string option"
  gateway :: "string \<Rightarrow> send_outcome"
  random :: "nat \<Rightarrow> nat"

text \<open>
  \<open>xs[Math.floor(Math.random() * xs.length)]\<close> for a list that is not empty; the
  number \<open>k\<close> tells the places of the calls apart.
\<close>

definition pick :: "env \<Rightarrow> nat \<Rightarrow> 'a list \<Rightarrow> 'a" where
  "pick e k xs = xs ! (random e k mod length xs)"

subsection \<open>Store operations (services/redis.js)\<close>

definition getUser :: "phone \<Rightarrow> world \<Rightarrow> user option" where
  "getUser phoneNumber w = users w phoneNumber"

definition setUser :: "phone \<Rightarrow> user \<Rightarrow> world \<Rightarrow> world" where
  "setUser phoneNumber userData w = w\<lparr>users := (users w)(phoneNumber \<mapsto> userData)\<rparr>"

text \<open>
  \<open>updateUser\<close> stores \<open>{...existing, ...updates}\<close>; the updates are given as the
  function that overwrites the updated fields.
\<close>

definition blankUser :: user where
  "blankUser = \<lparr>name = None, onboardingStage = 0, stats = None\<rparr>"

definition updateUser :: "phone \<Rightarrow> (user \<Rightarrow> user) \<Rightarrow> world \<Rightarrow> world" where
  "updateUser phoneNumber updates w =
     (let existing = (case getUser phoneNumber w of None \<Rightarrow> blankUser | Some u \<Rightarrow> u);
          updated = updates existing
      in setUser phoneNumber updated w)"

definition createUser :: "env \<Rightarrow> phone \<Rightarrow> world \<Rightarrow> user \<times> world" where
  "createUser e phoneNumber w =
     (let newUser = \<lparr>name = None, onboardingStage = 0,
            stats = Some \<lparr>lastActive = now e, messageCount = 0, journalCount = 0\<rparr>\<rparr>
      in (newUser, setUser phoneNumber newUser w))"

definition getOrCreateUser :: "env \<Rightarrow> phone \<Rightarrow> world \<Rightarrow> user \<times> world" where
  "getOrCreateUser e phoneNumber w =
     (case getUser phoneNumber w of
        None \<Rightarrow> createUser e phoneNumber w
      | Some user \<Rightarrow> (user, w))"

definition addMessage ::
  "env \<Rightarrow> phone \<Rightarrow> string \<Rightarrow> string \<Rightarrow> string \<Rightarrow> world \<Rightarrow> world" where
  "addMessage e phoneNumber r c t w =
     (let messageWithTimestamp = \<lparr>role = r, mcontent = c, mtype = t, mtimestamp = now e\<rparr>;
          pushed = conversations w phoneNumber @ [messageWithTimestamp];
          maxMessages = 50;
          kept = (if length pushed > maxMessages
                  then drop (length pushed - maxMessages) pushed else pushed)
      in w\<lparr>conversations := (conversations w)(phoneNumber := kept)\<rparr>)"

definition getConversationHistory ::
  "phone \<Rightarrow> nat \<Rightarrow> world \<Rightarrow> conversationMessage list" where
  "getConversationHistory phoneNumber limit w =
     (let messages = conversations w phoneNumber
      in drop (length messages - limit) messages)"

text \<open>The day bucket of a journal entry is the UTC date of the clock.\<close>

definition utcDay :: "int \<Rightarrow> int" where
  "utcDay t = t div 86400000"

definition addJournalEntry :: "env \<Rightarrow> phone \<Rightarrow> string \<Rightarrow> bool \<Rightarrow> world \<Rightarrow> world" where
  "addJournalEntry e phoneNumber c p w =
     (let key = (phoneNumber, utcDay (now e));
          entries = (case journals w key of None \<Rightarrow> [] | Some es \<Rightarrow> es)
      in w\<lparr>journals := (journals w)(key \<mapsto>
            entries @ [\<lparr>jcontent = c, prompted = p, jtimestamp = now e\<rparr>])\<rparr>)"

definition getSchedule :: "phone \<Rightarrow> world \<Rightarrow> schedule option" where
  "getSchedule phoneNumber w = schedules w phoneNumber"

definition setSchedule :: "phone \<Rightarrow> schedule \<Rightarrow> world \<Rightarrow> world" where
  "setSchedule phoneNumber scheduleData w =
     w\<lparr>schedules := (schedules w)(phoneNumber \<mapsto> scheduleData)\<rparr>"

definition addFollowUp :: "phone \<Rightarrow> followUp \<Rightarrow> world \<Rightarrow> world" where
  "addFollowUp phoneNumber f w =
     (let sched = (case getSchedule phoneNumber w of
                     None \<Rightarrow> \<lparr>nextCheckIn = None, nextJournalPrompt = None, followUps = []\<rparr>
                   | Some sc \<Rightarrow> sc)
      in setSchedule phoneNumber (sched\<lparr>followUps := followUps sched @ [f]\<rparr>) w)"

definition logCrisis :: "env \<Rightarrow> phone \<Rightarrow> string \<Rightarrow> string \<Rightarrow> bool \<Rightarrow> world \<Rightarrow> world" where
  "logCrisis e phoneNumber m lvl kw w =
     (let timestamp = now e
      in w\<lparr>crisisLogs := (crisisLogs w)((phoneNumber, timestamp) \<mapsto>
            \<lparr>logMessage = m, logRiskLevel = lvl, logKeywordMatch = kw,
             logTimestamp = timestamp, handled = False\<rparr>)\<rparr>)"

definition deleteUserData :: "phone \<Rightarrow> world \<Rightarrow> world" where
  "deleteUserData phoneNumber w =
     w\<lparr>users := (users w)(phoneNumber := None),
       conversations := (conversations w)(phoneNumber := []),
       schedules := (schedules w)(phoneNumber := None),
       journals := (\<lambda>(p, d). if p = phoneNumber then None else journals w (p, d)),
       crisisLogs := (\<lambda>(p, t). if p = phoneNumber then None else crisisLogs w (p, t))\<rparr>"

definition truncate_str :: "string \<Rightarrow> nat \<Rightarrow> string" where
  "truncate_str text maxLength =
     (if text = [] \<or> length text \<le> maxLength then text
      else substring text 0 (maxLength - 3) @ ''...'')"

subsection \<open>Delivery (handlers/messageHandler.js, services/loopMessage.js)\<close>

text \<open>
  \<open>sendResponse\<close>: an empty text is not sent; the segments of \<open>splitMessage\<close> are
  handed to the gateway in order.  A segment the gateway rejects is logged and the loop
  goes on; an exception of the gateway leaves the loop and the function.
\<close>

fun sendSegments :: "env \<Rightarrow> phone \<Rightarrow> string list \<Rightarrow> world \<Rightarrow> (exn + unit) \<times> world" where
  "sendSegments e phoneNumber [] w = (Inr (), w)"
| "sendSegments e phoneNumber (msg # messages) w =
     (case gateway e msg of
        SendThrows \<Rightarrow> (Inl GatewayError, w)
      | Rejected reason \<Rightarrow> sendSegments e phoneNumber messages w
      | Delivered \<Rightarrow>
          sendSegments e phoneNumber messages (w\<lparr>sent := sent w @ [(phoneNumber, msg)]\<rparr>))"

definition sendResponse :: "env \<Rightarrow> phone \<Rightarrow> string option \<Rightarrow> world \<Rightarrow> (exn + unit) \<times> world" where
  "sendResponse e phoneNumber text w0 =
     (let w = w0\<lparr>calls := calls w0 @ [SendResponse text]\<rparr>
      in case text of
           None \<Rightarrow> (Inr (), w)
         | Some t \<Rightarrow>
             if t = [] then (Inr (), w)
             else let maxLength = 1600; messages = splitMessage t maxLength
                  in sendSegments e phoneNumber messages w)"

section \<open>Journaling (prompts/journalPrompts.js, services/journaling.js)\<close>

definition isJournalEntry :: "string \<Rightarrow> bool" where
  "isJournalEntry message =
     (if message = [] then False
      else let lowerMessage = trim (toLowerCase message)
           in list_ex (\<lambda>prefix. startsWith lowerMessage prefix) journalPrefixes)"

text \<open>The \<open>for\<close> loop of \<open>extractJournalContent\<close>, which stops at the first prefix found.\<close>

fun stripFirstPrefix :: "string \<Rightarrow> string list \<Rightarrow> string" where
  "stripFirstPrefix content [] = content"
| "stripFirstPrefix content (prefix # prefixes) =
     (if startsWith (toLowerCase content) prefix
      then trim (substringFrom content (length prefix))
      else stripFirstPrefix content prefixes)"

definition extractJournalContent :: "string \<Rightarrow> string" where
  "extractJournalContent message =
     (if message = [] then message
      else stripFirstPrefix (trim message) journalPrefixes)"

definition journalAcknowledgments :: "string list" where
  "journalAcknowledgments =
     [''Thanks for sharing that with me  I've saved it for you.'',
      ''Got it, I've noted that down. It's good to reflect like this.'',
      ''Journaling saved  These moments of reflection really add up.'',
      ''I've saved your journal entry. Thanks for taking a moment to reflect.'',
      ''Nice, got it noted! Coming back to these later can be really valuable.'']"

definition getJournalAcknowledgment :: "env \<Rightarrow> string" where
  "getJournalAcknowledgment e = pick e 0 journalAcknowledgments"

text \<open>
  \<open>saveJournalEntry\<close>.  The store is taken to answer every call; the one exception the
  body can still raise is the TypeError of \<open>user.stats.journalCount\<close> on a profile
  without \<open>stats\<close>, which the \<open>catch\<close> turns into the apology, after the entry has been
  stored.
\<close>

definition saveJournalEntry :: "env \<Rightarrow> phone \<Rightarrow> string \<Rightarrow> bool \<Rightarrow> world \<Rightarrow> (bool \<times> string) \<times> world" where
  "saveJournalEntry e phoneNumber message p w0 =
     (let w = w0\<lparr>calls := calls w0 @ [SaveJournalEntry]\<rparr>;
          content = extractJournalContent message;
          w = addJournalEntry e phoneNumber content p w
      in case getUser phoneNumber w of
           None \<Rightarrow> ((True, getJournalAcknowledgment e), w)
         | Some user \<Rightarrow>
             (case stats user of
                None \<Rightarrow>
                  ((False, ''I had trouble saving that, but I heard you. Want to try again?''), w)
              | Some st \<Rightarrow>
                  ((True, getJournalAcknowledgment e),
                   updateUser phoneNumber
                     (\<lambda>u. u\<lparr>stats := Some (st\<lparr>journalCount := journalCount st + 1\<rparr>)\<rparr>) w)))"

section \<open>Crisis detection (prompts/crisisPrompt.js, services/crisisDetection.js)\<close>

definition nl :: string where
  "nl = [CHR 0x0A]"

definition resourcesSuicide :: string where
  "resourcesSuicide = ''988 Suicide & Crisis Lifeline''"

definition resourcesCrisis :: string where
  "resourcesCrisis = ''Text HOME to 741741 (Crisis Text Line)''"

definition resourcesEmergency :: string where
  "resourcesEmergency = ''911''"

definition getCrisisResponse :: "string \<Rightarrow> string option" where
  "getCrisisResponse lvl =
     (if lvl = ''critical'' then Some
        (''I hear you, and I'm really glad you're talking to me right now. '' @
         ''What you're feeling matters, and so do you.'' @ nl @ nl @
         ''I want to make sure you have support beyond just me. '' @
         ''Please reach out to someone who can help:'' @ nl @ nl @
         '' '' @ resourcesSuicide @ nl @ '' '' @ resourcesCrisis @ nl @ nl @
         ''These are real people who care and can help right now. '' @
         ''Are you safe at this moment?'')
      else if lvl = ''high'' then Some
        (''Thank you for trusting me with this. I'm here for you, and I want you to know '' @
         ''that what you're going through is real and valid.'' @ nl @ nl @
         ''I also want to share some resources in case you need them:'' @ nl @
         '' '' @ resourcesSuicide @ nl @ '' '' @ resourcesCrisis @ nl @ nl @
         ''You don't have to go through this alone. How are you feeling right now?'')
      else if lvl = ''medium'' then Some
        (''I hear that you're going through a really tough time. '' @
         ''That takes a lot to share, and I'm glad you did.'' @ nl @ nl @
         ''If things ever feel too overwhelming, remember you can also reach out to '' @
         resourcesCrisis @ '' - they're there 24/7.'' @ nl @ nl @
         ''I'm here too. Tell me more about what's going on.'')
      else None)"

definition getCrisisResourcesText :: string where
  "getCrisisResourcesText =
     ''If you're in crisis, please reach out to these resources:'' @ nl @
     '' '' @ resourcesSuicide @ nl @ '' '' @ resourcesCrisis @ nl @
     '' Emergency: '' @ resourcesEmergency @ nl @ nl @
     ''You matter, and help is available.''"

text \<open>
  \<open>riskOrder[x] || 0\<close> with \<open>riskOrder = { low: 0, medium: 1, high: 2, critical: 3 }\<close>.
  A key that the object inherits (\<open>constructor\<close>, \<open>toString\<close>) gives a value that is not
  a number, for which \<open>llmRisk > currentRisk\<close> is false as it is for 0.
\<close>

definition riskOrder :: "string \<Rightarrow> nat" where
  "riskOrder lvl =
     (if lvl = ''low'' then 0 else if lvl = ''medium'' then 1
      else if lvl = ''high'' then 2 else if lvl = ''critical'' then 3 else 0)"

record crisisResult =
  isCrisis :: bool
  riskLevel :: string
  keywordMatch :: bool
  crisisResponse :: "string option"
  shouldFollowUp :: bool
  followUpHours :: jsnumber

text \<open>
  \<open>assessWithLLM\<close> answers \<open>null\<close> without a client, when the request fails (its own
  \<open>catch\<close>), when the answer is not JSON, and when the parsed answer has no \<open>level\<close>
  (an absent level is the empty string here).  It never throws, so the \<open>catch\<close> of
  \<open>detectCrisis\<close> around it is not reached.
\<close>

definition assessWithLLM :: "env \<Rightarrow> string \<Rightarrow> conversationMessage list \<Rightarrow> assessment option" where
  "assessWithLLM e message conversationHistory =
     (if \<not> clientConfigured e then None
      else case assessReply e of
             AssessApiError \<Rightarrow> None
           | AssessUnparsable \<Rightarrow> None
           | AssessParsed a \<Rightarrow> if level a \<noteq> [] then Some a else None)"

definition logCrisisEvent :: "env \<Rightarrow> phone \<Rightarrow> string \<Rightarrow> crisisResult \<Rightarrow> world \<Rightarrow> world" where
  "logCrisisEvent e phoneNumber message result w =
     logCrisis e phoneNumber (truncate_str message 500) (riskLevel result) (keywordMatch result) w"

definition scheduleFollowUp :: "env \<Rightarrow> phone \<Rightarrow> int \<Rightarrow> string \<Rightarrow> world \<Rightarrow> world" where
  "scheduleFollowUp e phoneNumber hours lvl w =
     (let followUpTime = now e + hours * 60 * 60 * 1000
      in addFollowUp phoneNumber
           \<lparr>ftype = ''distress-follow-up'', ftime = followUpTime,
            fcontextRiskLevel = lvl, fcontextScheduledAt = now e\<rparr> w)"

definition detectCrisis ::
  "env \<Rightarrow> phone \<Rightarrow> string \<Rightarrow> conversationMessage list \<Rightarrow> world \<Rightarrow> crisisResult \<times> world" where
  "detectCrisis e phoneNumber message conversationHistory w0 =
     (let w = w0\<lparr>calls := calls w0 @ [DetectCrisis]\<rparr>;
          result = \<lparr>isCrisis = False, riskLevel = ''low'', keywordMatch = False,
                    crisisResponse = None, shouldFollowUp = False, followUpHours = JNull\<rparr>;
          result = (if containsCrisisKeyword message
                    then result\<lparr>keywordMatch := True, isCrisis := True, riskLevel := ''high''\<rparr>
                    else result);
          result =
            (case assessWithLLM e message conversationHistory of
               None \<Rightarrow> result
             | Some llmAssessment \<Rightarrow>
                 let currentRisk = riskOrder (riskLevel result);
                     llmRisk = riskOrder (level llmAssessment);
                     result = (if llmRisk > currentRisk
                               then result\<lparr>riskLevel := level llmAssessment\<rparr> else result)
                 in result\<lparr>isCrisis := (riskLevel result \<noteq> ''low''),
                      shouldFollowUp := (follow_up_hours llmAssessment \<noteq> JNull),
                      followUpHours := follow_up_hours llmAssessment\<rparr>)
      in if isCrisis result then
           let result = result\<lparr>crisisResponse := getCrisisResponse (riskLevel result)\<rparr>;
               w = logCrisisEvent e phoneNumber message result w
           in (case followUpHours result of
                 JNumber hours \<Rightarrow>
                   if shouldFollowUp result \<and> hours \<noteq> 0
                   then (result, scheduleFollowUp e phoneNumber hours (riskLevel result) w)
                   else (result, w)
               | _ \<Rightarrow> (result, w))
         else (result, w))"

text \<open>
  The result of the keyword layer alone, in the words of the specification: the floor is
  \<open>high\<close> on a match and \<open>low\<close> otherwise, and nothing of the external assessment
  enters the result.
\<close>

definition keywordFloor :: "string \<Rightarrow> string" where
  "keywordFloor message = (if containsCrisisKeyword message then ''high'' else ''low'')"

definition keywordOnlyResult :: "string \<Rightarrow> crisisResult" where
  "keywordOnlyResult message =
     \<lparr>isCrisis = containsCrisisKeyword message, riskLevel = keywordFloor message,
      keywordMatch = containsCrisisKeyword message,
      crisisResponse =
        (if containsCrisisKeyword message then getCrisisResponse ''high'' else None),
      shouldFollowUp = False, followUpHours = JNull\<rparr>"

text \<open>
  The ordering of the risk levels in the words of the specification,
  \<open>low < medium < high < critical\<close>, written out pair by pair, and the greater of two
  levels under it.  These two definitions are not taken from the code, which compares the
  numbers of \<open>riskOrder\<close>.
\<close>

definition specLevels :: "string list" where
  "specLevels = [''low'', ''medium'', ''high'', ''critical'']"

definition specLevelBelow :: "string \<Rightarrow> string \<Rightarrow> bool" where
  "specLevelBelow x y =
     ((x, y) \<in> set [(''low'', ''medium''), (''low'', ''high''), (''low'', ''critical''),
                     (''medium'', ''high''), (''medium'', ''critical''),
                     (''high'', ''critical'')])"

definition specMaxLevel :: "string \<Rightarrow> string \<Rightarrow> string" where
  "specMaxLevel x y = (if specLevelBelow x y then y else x)"

section \<open>Onboarding (prompts/systemPrompt.js, services/onboarding.js)\<close>

definition getWelcomeMessage :: string where
  "getWelcomeMessage =
     ''Hey there!  I'm here to be a supportive friend whenever you need someone to talk to.'' @
     nl @ nl @
     ''I'm not a therapist, but I'm a good listener and I'll remember our conversations.'' @
     nl @ nl @ ''What's on your mind today?''"

definition getOnboardingPrompt :: "nat \<Rightarrow> string option" where
  "getOnboardingPrompt stage =
     (if stage = 1 then
        Some ''By the way, I'd love to know what to call you. What's your name?''
      else if stage = 2 then
        Some (''I want to be helpful in the right ways. What brings you here? '' @
              ''(No pressure - you can say 'just to talk' if you prefer)'')
      else if stage = 3 then
        Some (''Would you like me to check in on you sometimes? I can send a morning '' @
              ''message or evening reflection prompt. Totally optional!'')
      else None)"

definition getNameAcknowledgment :: "env \<Rightarrow> string \<Rightarrow> string" where
  "getNameAcknowledgment e n =
     pick e 1
       [''Nice to meet you, '' @ n @ ''! '',
        n @ '' - I love that! Great to meet you.'',
        ''Thanks for sharing, '' @ n @ ''! I'll remember that.'']"

subsection \<open>Name extraction\<close>

text \<open>
  The regular expressions of \<open>extractName\<close>, read by hand.  \<open>\w\<close> is
  \<open>[A-Za-z0-9_]\<close> and \<open>\s\<close> is the white space of \<open>trim\<close>.  The first pattern,
  \<open>/^(?:i'?m|my name is|call me|it'?s)\s+(\w+)/i\<close>, is one of six openings (no two of
  which begin the same text), then white space, then the longest run of word characters,
  which is the name.  The second, \<open>/^(\w+)(?:\s*!|\s*\.|\s*$)/i\<close>, is the longest run
  of word characters at the start, followed after optional white space by \<open>!\<close>,
  \<open>.\<close> or the end of the text.
\<close>

definition isWordChar :: "char \<Rightarrow> bool" where
  "isWordChar c =
     (let n = (of_char c :: nat)
      in (48 \<le> n \<and> n \<le> 57) \<or> (65 \<le> n \<and> n \<le> 90) \<or> n = 95 \<or> (97 \<le> n \<and> n \<le> 122))"

definition toUpperChar :: "char \<Rightarrow> char" where
  "toUpperChar c =
     (let n = (of_char c :: nat)
      in if 97 \<le> n \<and> n \<le> 122 then char_of (n - 32) else c)"

definition introOpenings :: "string list" where
  "introOpenings = [''i'm'', ''im'', ''my name is'', ''call me'', ''it's'', ''its'']"

fun matchIntro :: "string \<Rightarrow> string list \<Rightarrow> string option" where
  "matchIntro s [] = None"
| "matchIntro s (opening # openings) =
     (if startsWith (toLowerCase s) opening then
        let rest = drop (length opening) s;
            word = takeWhile isWordChar (dropWhile isWhitespace rest)
        in if rest \<noteq> [] \<and> isWhitespace (hd rest) \<and> word \<noteq> [] then Some word
           else matchIntro s openings
      else matchIntro s openings)"

definition matchLeadingWord :: "string \<Rightarrow> string option" where
  "matchLeadingWord s =
     (let word = takeWhile isWordChar s;
          rest = dropWhile isWhitespace (dropWhile isWordChar s)
      in if word \<noteq> [] \<and> (rest = [] \<or> hd rest = CHR ''!'' \<or> hd rest = CHR ''.'')
         then Some word else None)"

text \<open>\<open>s.split(/\s+/)\<close>: the pieces of \<open>s\<close> between the runs of white space.\<close>

fun splitWhitespace :: "string \<Rightarrow> string \<Rightarrow> string list" where
  "splitWhitespace cur [] = [rev cur]"
| "splitWhitespace cur (c # cs) =
     (if isWhitespace c then
        (if cs \<noteq> [] \<and> isWhitespace (hd cs) then splitWhitespace cur cs
         else rev cur # splitWhitespace [] cs)
      else splitWhitespace (c # cur) cs)"

definition commonWords :: "string list" where
  "commonWords =
     [''yes'', ''no'', ''hi'', ''hey'', ''hello'', ''thanks'', ''thank'', ''ok'', ''okay'',
      ''sure'', ''yeah'', ''yep'', ''nope'', ''the'', ''and'', ''but'', ''what'', ''why'']"

definition isCommonWord :: "string \<Rightarrow> bool" where
  "isCommonWord word = (toLowerCase word \<in> set commonWords)"

text \<open>
  \<open>capitalizeName\<close> is applied to runs of word characters only, where \<open>toUpperCase\<close>
  of the first character changes \<open>a-z\<close> alone.
\<close>

definition capitalizeName :: "string \<Rightarrow> string" where
  "capitalizeName n = map toUpperChar (take 1 n) @ toLowerCase (drop 1 n)"

definition extractName :: "string \<Rightarrow> string option" where
  "extractName message =
     (if message = [] then None
      else
        let trimmed = trim message;
            first = (case matchIntro trimmed introOpenings of
                       Some n \<Rightarrow> if length n \<ge> 2 \<and> \<not> isCommonWord n
                                 then Some (capitalizeName n) else None
                     | None \<Rightarrow> None);
            second = (case matchLeadingWord trimmed of
                        Some n \<Rightarrow> if length n \<ge> 2 \<and> \<not> isCommonWord n
                                  then Some (capitalizeName n) else None
                      | None \<Rightarrow> None)
        in case first of
             Some n \<Rightarrow> Some n
           | None \<Rightarrow>
               (case second of
                  Some n \<Rightarrow> Some n
                | None \<Rightarrow>
                    let words = splitWhitespace [] trimmed
                    in if length words \<le> 2 \<and> length (hd words) \<ge> 2 then
                         let potentialName = filter isWordChar (hd words)
                         in if \<not> isCommonWord potentialName
                            then Some (capitalizeName potentialName) else None
                       else None))"

subsection \<open>Check-in times\<close>

text \<open>
  Local time is UTC shifted by the fixed offset \<open>tzOffset\<close> (no daylight saving).
  \<open>atLocalHour e t h\<close> is \<open>setHours(h, 0, 0, 0)\<close> on the date \<open>t\<close>;
  \<open>setDate(getDate() + 1)\<close> adds one day.
\<close>

definition dayMs :: int where
  "dayMs = 86400000"

definition atLocalHour :: "env \<Rightarrow> int \<Rightarrow> int \<Rightarrow> int" where
  "atLocalHour e t h = ((t + tzOffset e) div dayMs) * dayMs + h * 3600000 - tzOffset e"

definition getNext9AM :: "env \<Rightarrow> int" where
  "getNext9AM e =
     (let next = atLocalHour e (now e) 9
      in if next \<le> now e then next + dayMs else next)"

definition getNext8PM :: "env \<Rightarrow> int" where
  "getNext8PM e =
     (let next = atLocalHour e (now e) 20
      in if next \<le> now e then next + dayMs else next)"

definition setupCheckIns :: "env \<Rightarrow> phone \<Rightarrow> world \<Rightarrow> world" where
  "setupCheckIns e phoneNumber w0 =
     (let w = w0\<lparr>calls := calls w0 @ [SetupCheckIns]\<rparr>;
          tomorrow9am = getNext9AM e
      in setSchedule phoneNumber
           \<lparr>nextCheckIn = Some tomorrow9am, nextJournalPrompt = Some (getNext8PM e),
            followUps = []\<rparr> w)"

subsection \<open>The stage machine\<close>

definition advanceStage :: "phone \<Rightarrow> nat \<Rightarrow> world \<Rightarrow> world" where
  "advanceStage phoneNumber newStage w0 =
     (let w = w0\<lparr>calls := calls w0 @ [AdvanceStage newStage]\<rparr>
      in updateUser phoneNumber (\<lambda>u. u\<lparr>onboardingStage := newStage\<rparr>) w)"

definition getCurrentStage :: "phone \<Rightarrow> world \<Rightarrow> nat" where
  "getCurrentStage phoneNumber w =
     (case getUser phoneNumber w of None \<Rightarrow> 0 | Some user \<Rightarrow> onboardingStage user)"

record onboardingResult =
  response :: "string option"
  stageAdvanced :: bool
  currentStage :: nat

text \<open>
  The \<open>switch\<close> of \<open>processOnboarding\<close>: the response and the flag \<open>stageAdvanced\<close>
  after it.  \<open>user.stats.messageCount\<close> throws on a profile without \<open>stats\<close>.
\<close>

definition onboardingSwitch ::
  "env \<Rightarrow> phone \<Rightarrow> string \<Rightarrow> user \<Rightarrow> nat \<Rightarrow> world
     \<Rightarrow> (exn + string option \<times> bool) \<times> world" where
  "onboardingSwitch e phoneNumber message user stage w =
     (if stage = INITIAL then
        (case stats user of
           None \<Rightarrow> (Inl TypeError, w)
         | Some st \<Rightarrow>
             if messageCount st \<ge> 2 \<and> (name user = None \<or> name user = Some [])
             then (Inr (getOnboardingPrompt 1, True), advanceStage phoneNumber ASK_NAME w)
             else (Inr (None, False), w))
      else if stage = ASK_NAME then
        (case extractName message of
           None \<Rightarrow> (Inr (None, False), w)
         | Some extractedName \<Rightarrow>
             if extractedName = [] then (Inr (None, False), w)
             else
               let w = updateUser phoneNumber (\<lambda>u. u\<lparr>name := Some extractedName\<rparr>) w
               in (Inr (Some (getNameAcknowledgment e extractedName), True),
                   advanceStage phoneNumber ASK_REASON w))
      else if stage = ASK_REASON then
        (case stats user of
           None \<Rightarrow> (Inl TypeError, w)
         | Some st \<Rightarrow>
             if messageCount st \<ge> 5
             then (Inr (getOnboardingPrompt 2, True), advanceStage phoneNumber ASK_CHECKIN w)
             else (Inr (None, False), w))
      else if stage = ASK_CHECKIN then
        (case stats user of
           None \<Rightarrow> (Inl TypeError, w)
         | Some st \<Rightarrow>
             if messageCount st \<ge> 10
             then (Inr (getOnboardingPrompt 3, True), advanceStage phoneNumber COMPLETE w)
             else (Inr (None, False), w))
      else (Inr (None, False), w))"

text \<open>
  \<open>processOnboarding(phoneNumber, message, user)\<close>; \<open>user\<close> is what \<open>getUser\<close> gave
  the caller, and \<open>null\<close> throws at \<open>user.onboardingStage\<close>.
\<close>

definition processOnboarding ::
  "env \<Rightarrow> phone \<Rightarrow> string \<Rightarrow> user option \<Rightarrow> world \<Rightarrow> (exn + onboardingResult) \<times> world" where
  "processOnboarding e phoneNumber message userArg w0 =
     (let w = w0\<lparr>calls := calls w0 @ [ProcessOnboarding]\<rparr>
      in case userArg of
           None \<Rightarrow> (Inl TypeError, w)
         | Some user \<Rightarrow>
             let stage = onboardingStage user
             in (case onboardingSwitch e phoneNumber message user stage w of
                  (Inl x, w) \<Rightarrow> (Inl x, w)
                | (Inr (resp, advanced), w) \<Rightarrow>
                    if stage = ASK_CHECKIN \<and> isCheckInResponse message then
                      let wantsCheckIn = parseCheckInPreference message;
                          w = (if wantsCheckIn then setupCheckIns e phoneNumber w else w);
                          resp = (if wantsCheckIn
                                  then Some (''Great! I'll send you a gentle check-in from '' @
                                    ''time to time. You can always tell me to stop if it '' @
                                    ''gets annoying '')
                                  else Some ''No problem! I'll be here whenever you need me.'');
                          w = advanceStage phoneNumber COMPLETE w
                      in (Inr \<lparr>response = resp, stageAdvanced = True,
                               currentStage = getCurrentStage phoneNumber w\<rparr>, w)
                    else
                      (Inr \<lparr>response = resp, stageAdvanced = advanced,
                            currentStage = (if advanced then getCurrentStage phoneNumber w
                                            else stage)\<rparr>, w)))"

section \<open>Conversation engine (services/conversationEngine.js, utils/errorHandler.js)\<close>

definition fallbacks :: "string list" where
  "fallbacks =
     [''I'm having a moment - give me a sec and try again?'',
      ''Sorry, I got a bit mixed up there. Mind saying that again?'',
      ''My mind wandered for a second. What were you saying?'',
      ''I'm here for you, just had a little hiccup. Try again?'']"

definition getFallbackResponse :: "env \<Rightarrow> string" where
  "getFallbackResponse e = pick e 2 fallbacks"

text \<open>
  \<open>updateUserStats\<close> reads the profile and starts \<open>detectEmotionalState(message)\<close>
  with the update of the profile as its \<open>then\<close> callback; it does not await it (the
  comment there reads: do in background), so it returns with nothing written.
\<close>

definition updateUserStats :: "env \<Rightarrow> phone \<Rightarrow> string \<Rightarrow> world \<Rightarrow> world" where
  "updateUserStats e phoneNumber message w =
     (case getUser phoneNumber w of
        None \<Rightarrow> w
      | Some user \<Rightarrow> w\<lparr>background := background w @ [Started phoneNumber user]\<rparr>)"

text \<open>
  One step of the callback, in the environment \<open>e\<close> of the moment it is taken.  The
  first step is taken when the emotional state has arrived: the callback computes the new
  \<open>stats\<close> from the profile \<open>user\<close> that \<open>updateUserStats\<close> had read, and
  \<open>updateUser\<close> reads the stored profile (\<open>GET\<close>) and merges the updates into it.  On
  a profile \<open>user\<close> without \<open>stats\<close> the callback throws and its \<open>catch\<close> logs a
  warning.  The second step is the \<open>SET\<close> of \<open>updateUser\<close>: it writes the whole
  profile as merged at the first step.  Commands of other handlers can reach the store
  between the two steps.
\<close>

fun continuationStep :: "env \<Rightarrow> continuation \<Rightarrow> world \<Rightarrow> continuation \<times> world" where
  "continuationStep e (Started phoneNumber user) w =
     (case stats user of
        None \<Rightarrow> (Finished, w)
      | Some st \<Rightarrow>
          let updates = (\<lambda>u. u\<lparr>stats := Some (st\<lparr>lastActive := now e,
                                               messageCount := messageCount st + 1\<rparr>)\<rparr>);
              existing = (case getUser phoneNumber w of None \<Rightarrow> blankUser | Some u \<Rightarrow> u);
              updated = updates existing
          in (Fetched phoneNumber updated, w))"
| "continuationStep e (Fetched phoneNumber updated) w =
     (Finished, setUser phoneNumber updated w)"
| "continuationStep e Finished w = (Finished, w)"

text \<open>The continuation at place \<open>i\<close> of \<open>background\<close> takes its next step.\<close>

definition stepBackground :: "env \<Rightarrow> nat \<Rightarrow> world \<Rightarrow> world" where
  "stepBackground e i w =
     (if i < length (background w)
      then let (c, w') = continuationStep e (background w ! i) w
           in w'\<lparr>background := (background w')[i := c]\<rparr>
      else w)"

text \<open>
  \<open>generateResponse\<close> never throws: without a client it answers a fallback text, and
  its \<open>catch\<close> turns a failed request into the throttle notice (status 429) or a
  fallback text.  It awaits \<open>updateUserStats\<close>, which has only started the update of
  the profile when it returns.
\<close>

definition generateResponse :: "env \<Rightarrow> phone \<Rightarrow> string \<Rightarrow> world \<Rightarrow> string \<times> world" where
  "generateResponse e phoneNumber userMessage w0 =
     (let w = w0\<lparr>calls := calls w0 @ [GenerateResponse]\<rparr>
      in if \<not> clientConfigured e then (getFallbackResponse e, w)
         else
           let (user, w) = getOrCreateUser e phoneNumber w
           in case chatReply e of
                ChatApiError status \<Rightarrow>
                  (if status = 429
                   then ''I'm getting a lot of messages right now. Give me a moment and try again?''
                   else getFallbackResponse e, w)
              | ChatText t \<Rightarrow>
                  let assistantMessage = (if t = [] then getFallbackResponse e else t);
                      w = addMessage e phoneNumber ''user'' userMessage [] w;
                      w = addMessage e phoneNumber ''assistant'' assistantMessage [] w;
                      w = updateUserStats e phoneNumber userMessage w
                  in (assistantMessage, w))"

definition generateProactiveMessage :: "env \<Rightarrow> phone \<Rightarrow> string \<Rightarrow> world \<Rightarrow> string option" where
  "generateProactiveMessage e phoneNumber triggerType w =
     (if \<not> clientConfigured e then None
      else case getUser phoneNumber w of
             None \<Rightarrow> None
           | Some user \<Rightarrow> proactiveReply e)"

section \<open>The message handler (handlers/messageHandler.js)\<close>

record webhookData =
  wtype :: string
  messageId :: "string option"
  phoneNumber :: "string option"
  content :: "string option"

definition isDigit :: "char \<Rightarrow> bool" where
  "isDigit c = (let n = (of_char c :: nat) in 48 \<le> n \<and> n \<le> 57)"

definition normalizePhoneNumber :: "string option \<Rightarrow> string option" where
  "normalizePhoneNumber p =
     (case p of
        None \<Rightarrow> None
      | Some ph \<Rightarrow> if ph = [] then None else Some (filter isDigit ph))"

definition helpText :: string where
  "helpText =
     ''Here's what you can do:'' @ nl @ ''        '' @ nl @
     '' Journal: Start a message with '' @ [CHR 0x22] @ ''j:'' @ [CHR 0x22] @
       '' to save a journal entry'' @ nl @
     '' Stop check-ins: Say '' @ [CHR 0x22] @ ''stop'' @ [CHR 0x22] @
       '' to pause proactive messages'' @ nl @
     '' Resume: Say '' @ [CHR 0x22] @ ''resume'' @ [CHR 0x22] @
       '' to restart check-ins'' @ nl @
     '' Delete data: Say '' @ [CHR 0x22] @ ''forget me'' @ [CHR 0x22] @
       '' to delete all your data'' @ nl @
     '' Or just chat - I'm here to listen!''"

definition handleCommands ::
  "env \<Rightarrow> phone \<Rightarrow> string \<Rightarrow> user \<Rightarrow> world \<Rightarrow> (bool \<times> string option) \<times> world" where
  "handleCommands e phone message user w =
     (let lowerMessage = trim (toLowerCase message)
      in if lowerMessage = ''forget me'' \<or> lowerMessage = ''delete my data'' then
           ((True, Some (''I've deleted all your data. If you ever want to chat again, '' @
               ''just send a message and we'll start fresh. Take care '')),
            deleteUserData phone w)
         else if lowerMessage = ''stop'' \<or> lowerMessage = ''stop check-ins'' \<or>
                 lowerMessage = ''unsubscribe'' then
           ((True, Some (''Got it, I've stopped the check-ins. '' @
               ''I'm still here whenever you want to talk though!'')),
            setSchedule phone
              \<lparr>nextCheckIn = None, nextJournalPrompt = None, followUps = []\<rparr> w)
         else if lowerMessage = ''resume'' \<or> lowerMessage = ''start check-ins'' then
           ((True, Some ''Welcome back! I'll start sending check-ins again. Talk soon ''),
            setupCheckIns e phone w)
         else if lowerMessage = ''help'' \<or> lowerMessage = ''?'' then
           ((True, Some helpText), w)
         else if lowerMessage = ''crisis'' \<or> lowerMessage = ''help me'' \<or>
                 lowerMessage = ''resources'' then
           ((True, Some getCrisisResourcesText), w)
         else ((False, None), w))"

definition generateAndSendResponse ::
  "env \<Rightarrow> phone \<Rightarrow> string \<Rightarrow> world \<Rightarrow> (exn + unit) \<times> world" where
  "generateAndSendResponse e phone message w =
     (let (resp, w) = generateResponse e phone message w
      in sendResponse e phone (Some resp) w)"

text \<open>The body of the \<open>try\<close> block of \<open>handleMessage\<close>.\<close>

definition handleMessage_try :: "env \<Rightarrow> phone \<Rightarrow> string \<Rightarrow> world \<Rightarrow> (exn + unit) \<times> world" where
  "handleMessage_try e phone message w0 =
     (let (user, w) = getOrCreateUser e phone w0
      in case stats user of
           None \<Rightarrow> (Inl TypeError, w)
         | Some st \<Rightarrow>
             let isNewUser = (messageCount st = 0);
                 ((commandHandled, commandResponse), w) = handleCommands e phone message user w
             in if commandHandled then sendResponse e phone commandResponse w
                else if isJournalEntry message then
                  let ((success, acknowledgment), w) =
                        saveJournalEntry e phone message False w
                  in sendResponse e phone (Some acknowledgment) w
                else if isNewUser then
                  (case sendResponse e phone (Some getWelcomeMessage) w of
                     (Inl x, w) \<Rightarrow> (Inl x, w)
                   | (Inr u, w) \<Rightarrow> generateAndSendResponse e phone message w)
                else
                  let conversationHistory = getConversationHistory phone 10 w;
                      (crisis, w) = detectCrisis e phone message conversationHistory w
                  in if isCrisis crisis \<and> riskLevel crisis = ''critical'' then
                       sendResponse e phone (crisisResponse crisis) w
                     else
                       let (resp, w) = generateResponse e phone message w;
                           resp = (case crisisResponse crisis of
                                     None \<Rightarrow> resp
                                   | Some c \<Rightarrow> if isCrisis crisis \<and> c \<noteq> []
                                               then c @ nl @ nl @ resp else resp)
                       in (case processOnboarding e phone message (getUser phone w) w of
                            (Inl x, w) \<Rightarrow> (Inl x, w)
                          | (Inr onboardingResult, w) \<Rightarrow>
                              let resp = (case response onboardingResult of
                                            None \<Rightarrow> resp
                                          | Some r \<Rightarrow> if r = [] then resp
                                                      else resp @ nl @ nl @ r)
                              in sendResponse e phone (Some resp) w))"

definition fallbackText :: string where
  "fallbackText = ''I'm having a moment - give me a sec and try again?''"

text \<open>
  \<open>handleMessage\<close>: an event without a phone number or without content is dropped; an
  exception of the body is answered with the fallback text, and an exception of that
  last send goes to the caller.
\<close>

definition handleMessage :: "env \<Rightarrow> webhookData \<Rightarrow> world \<Rightarrow> (exn + unit) \<times> world" where
  "handleMessage e wd w =
     (case (normalizePhoneNumber (phoneNumber wd), content wd) of
        (Some phone, Some message) \<Rightarrow>
          if phone = [] \<or> message = [] then (Inr (), w)
          else (case handleMessage_try e phone message w of
                  (Inr u, w) \<Rightarrow> (Inr u, w)
                | (Inl x, w) \<Rightarrow>
                    sendResponse e phone (Some fallbackText) w)
      | _ \<Rightarrow> (Inr (), w))"

section \<open>The proactive scheduler (services/proactiveMessaging.js)\<close>

text \<open>
  \<open>sendProactiveMessage\<close> and \<open>sendJournalPrompt\<close> catch every exception; a message is
  added to the history when the gateway accepted it.  The text of the journal prompt is
  chosen by the day of the week and \<open>Math.random\<close>; the model takes it from the
  environment.
\<close>

definition sendProactiveMessage :: "env \<Rightarrow> phone \<Rightarrow> string \<Rightarrow> world \<Rightarrow> world" where
  "sendProactiveMessage e phone triggerType w0 =
     (let w = w0\<lparr>calls := calls w0 @ [SendProactiveMessage triggerType]\<rparr>
      in case generateProactiveMessage e phone triggerType w of
           None \<Rightarrow> w
         | Some message \<Rightarrow>
             if message = [] then w
             else (case gateway e message of
                     Delivered \<Rightarrow>
                       addMessage e phone ''assistant'' message ''proactive''
                         (w\<lparr>sent := sent w @ [(phone, message)]\<rparr>)
                   | Rejected reason \<Rightarrow> w
                   | SendThrows \<Rightarrow> w))"

definition sendJournalPrompt :: "env \<Rightarrow> phone \<Rightarrow> string \<Rightarrow> world \<Rightarrow> world" where
  "sendJournalPrompt e phone promptMessage w0 =
     (let w = w0\<lparr>calls := calls w0 @ [SendJournalPrompt]\<rparr>
      in case gateway e promptMessage of
           Delivered \<Rightarrow>
             addMessage e phone ''assistant'' promptMessage ''journal_prompt''
               (w\<lparr>sent := sent w @ [(phone, promptMessage)]\<rparr>)
         | Rejected reason \<Rightarrow> w
         | SendThrows \<Rightarrow> w)"

text \<open>
  \<open>getNextCheckInTime\<close> and \<open>getNextJournalPromptTime\<close> read the clock (\<open>new Date()\<close>),
  go to the next day and set the hour.
\<close>

definition getNextCheckInTime :: "env \<Rightarrow> int" where
  "getNextCheckInTime e = atLocalHour e (now e + dayMs) 9"

definition getNextJournalPromptTime :: "env \<Rightarrow> int" where
  "getNextJournalPromptTime e = atLocalHour e (now e + dayMs) 20"

text \<open>
  A timestamp is taken (\<open>schedule.nextCheckIn && ...\<close>) when it is neither \<open>null\<close> nor 0.
  The loop over the follow-ups sends the due ones in order; they are then filtered out of
  the list.
\<close>

definition isDue :: "int \<Rightarrow> int option \<Rightarrow> bool" where
  "isDue nowArg t = (case t of None \<Rightarrow> False | Some x \<Rightarrow> x \<noteq> 0 \<and> nowArg \<ge> x)"

fun sendFollowUps :: "env \<Rightarrow> phone \<Rightarrow> int \<Rightarrow> followUp list \<Rightarrow> world \<Rightarrow> world" where
  "sendFollowUps e phone nowArg [] w = w"
| "sendFollowUps e phone nowArg (f # fs) w =
     (if nowArg \<ge> ftime f
      then sendFollowUps e phone nowArg fs (sendProactiveMessage e phone (ftype f) w)
      else sendFollowUps e phone nowArg fs w)"

definition processUserSchedule :: "env \<Rightarrow> string \<Rightarrow> phone \<Rightarrow> int \<Rightarrow> world \<Rightarrow> world" where
  "processUserSchedule e journalPromptMessage phone nowArg w =
     (case getSchedule phone w of
        None \<Rightarrow> w
      | Some sched \<Rightarrow>
          let updated = False;
              (sched, updated, w) =
                (if isDue nowArg (nextCheckIn sched)
                 then (sched\<lparr>nextCheckIn := Some (getNextCheckInTime e)\<rparr>, True,
                       sendProactiveMessage e phone ''morning'' w)
                 else (sched, updated, w));
              (sched, updated, w) =
                (if isDue nowArg (nextJournalPrompt sched)
                 then (sched\<lparr>nextJournalPrompt := Some (getNextJournalPromptTime e)\<rparr>, True,
                       sendJournalPrompt e phone journalPromptMessage w)
                 else (sched, updated, w));
              processed = filter (\<lambda>f. nowArg \<ge> ftime f) (followUps sched);
              w = sendFollowUps e phone nowArg (followUps sched) w;
              (sched, updated) =
                (if processed \<noteq> []
                 then (sched\<lparr>followUps := filter (\<lambda>f. f \<notin> set processed) (followUps sched)\<rparr>,
                       True)
                 else (sched, updated))
          in if updated then setSchedule phone sched w else w)"

section \<open>The idempotency check of the webhook route (services/redis.js)\<close>

text \<open>
  The markers of the store, each key with the time at which it expires.
  \<open>checkIdempotency\<close> is a \<open>GET\<close> of the key, \<open>setIdempotency\<close> a \<open>SET\<close> with
  \<open>EX\<close> and without \<open>NX\<close>: two commands of the store, each atomic on its own.
\<close>

type_synonym markers = "string \<rightharpoonup> int"

definition checkIdempotency :: "string \<Rightarrow> int \<Rightarrow> markers \<Rightarrow> bool" where
  "checkIdempotency eventId t store =
     (let key = ''idempotency:'' @ eventId
      in case store key of None \<Rightarrow> False | Some expiry \<Rightarrow> t < expiry)"

definition setIdempotency :: "string \<Rightarrow> int \<Rightarrow> int \<Rightarrow> markers \<Rightarrow> markers" where
  "setIdempotency eventId ttlSeconds t store =
     (let key = ''idempotency:'' @ eventId
      in store(key \<mapsto> t + ttlSeconds * 1000))"

text \<open>
  One delivery of an event with an identifier to \<open>router.post\<close> of \<open>/message\<close>.  The handler is suspended at
  each \<open>await\<close>, so its run is two steps: the check, after which a duplicate is
  answered at once, and the set, after which the event is answered \<open>received\<close> and
  processed.  Between the two steps of one delivery the steps of another may run, in this
  replica or in another one; a schedule names the delivery that takes the next step and
  the time of the step.
\<close>

datatype delivery = Arrived | Checked | Responded string

fun routeStep :: "string \<Rightarrow> int \<Rightarrow> delivery \<Rightarrow> markers \<Rightarrow> delivery \<times> markers" where
  "routeStep eventId t Arrived store =
     (if checkIdempotency eventId t store then (Responded ''duplicate'', store)
      else (Checked, store))"
| "routeStep eventId t Checked store =
     (Responded ''received'', setIdempotency eventId 300 t store)"
| "routeStep eventId t (Responded status) store = (Responded status, store)"

fun runDeliveries ::
  "string \<Rightarrow> (nat \<times> int) list \<Rightarrow> delivery list \<times> markers \<Rightarrow> delivery list \<times> markers" where
  "runDeliveries eventId [] state = state"
| "runDeliveries eventId ((i, t) # steps) (ds, store) =
     (if i < length ds then
        let (d, store') = routeStep eventId t (ds ! i) store
        in runDeliveries eventId steps (ds[i := d], store')
      else runDeliveries eventId steps (ds, store))"

text \<open>
  \<open>acquireLock\<close> of the same service, for comparison: \<open>SET\<close> with \<open>NX\<close> and
  \<open>EX\<close>, one command that sets the key only when it is absent and tells whether it did.
\<close>

definition acquireLock :: "string \<Rightarrow> int \<Rightarrow> int \<Rightarrow> markers \<Rightarrow> bool \<times> markers" where
  "acquireLock lockKey ttlSeconds t store =
     (case store lockKey of
        None \<Rightarrow> (True, store(lockKey \<mapsto> t + ttlSeconds * 1000))
      | Some expiry \<Rightarrow>
          if t < expiry then (False, store)
          else (True, store(lockKey \<mapsto> t + ttlSeconds * 1000)))"

section \<open>Observations and a sample event\<close>

text \<open>The calls recorded between the world \<open>w\<close> and a later world \<open>w'\<close>.\<close>

definition newCalls :: "world \<Rightarrow> world \<Rightarrow> call list" where
  "newCalls w w' = drop (length (calls w)) (calls w')"

text \<open>
  A sample store with one profile, a sample environment in which the language model
  assesses \<open>critical\<close> and the gateway accepts every text, and a sample text event; the
  theorems are exercised on them.
\<close>

definition sampleUser :: user where
  "sampleUser =
     \<lparr>name = Some ''Sam'', onboardingStage = 4,
      stats = Some \<lparr>lastActive = 0, messageCount = 12, journalCount = 0\<rparr>\<rparr>"

definition sampleWorld :: world where
  "sampleWorld =
     \<lparr>users = [''15551234567'' \<mapsto> sampleUser], conversations = (\<lambda>p. []),
      journals = Map.empty, schedules = Map.empty, crisisLogs = Map.empty,
      sent = [], calls = [], background = []\<rparr>"

definition sampleEnv :: env where
  "sampleEnv =
     \<lparr>now = 1700000000000, tzOffset = 0, clientConfigured = True,
      assessReply = AssessParsed
        \<lparr>level = ''critical'', reasoning = ''explicit intent'', follow_up_hours = JNumber 2\<rparr>,
      chatReply = ChatText ''I am here.'', proactiveReply = Some ''Good morning!'',
      gateway = (\<lambda>t. Delivered), random = (\<lambda>k. 0)\<rparr>"

definition sampleEvent :: "string \<Rightarrow> webhookData" where
  "sampleEvent message =
     \<lparr>wtype = ''text'', messageId = Some ''m1'', phoneNumber = Some ''+1 (555) 123-4567'',
      content = Some message\<rparr>"

text \<open>
  The calls of \<open>advanceStage\<close> in a trace; a sample store whose profile waits in
  stage \<open>ASK_CHECKIN\<close> with ten messages counted; a sample store whose profile waits
  in stage \<open>ASK_REASON\<close> with five messages counted; and a sample environment in which
  the language model assesses \<open>low\<close>.
\<close>

definition isAdvance :: "call \<Rightarrow> bool" where
  "isAdvance c = (case c of AdvanceStage n \<Rightarrow> True | _ \<Rightarrow> False)"

definition checkinWorld :: world where
  "checkinWorld =
     \<lparr>users = [''15551234567'' \<mapsto>
        \<lparr>name = Some ''Sam'', onboardingStage = 3,
         stats = Some \<lparr>lastActive = 0, messageCount = 10, journalCount = 0\<rparr>\<rparr>],
      conversations = (\<lambda>p. []), journals = Map.empty, schedules = Map.empty,
      crisisLogs = Map.empty, sent = [], calls = [], background = []\<rparr>"

definition reasonUser :: user where
  "reasonUser =
     \<lparr>name = Some ''Sam'', onboardingStage = 2,
      stats = Some \<lparr>lastActive = 0, messageCount = 5, journalCount = 0\<rparr>\<rparr>"

definition reasonWorld :: world where
  "reasonWorld =
     \<lparr>users = [''15551234567'' \<mapsto> reasonUser],
      conversations = (\<lambda>p. []), journals = Map.empty, schedules = Map.empty,
      crisisLogs = Map.empty, sent = [], calls = [], background = []\<rparr>"

definition quietEnv :: env where
  "quietEnv =
     \<lparr>now = 1700000000000, tzOffset = 0, clientConfigured = True,
      assessReply = AssessParsed
        \<lparr>level = ''low'', reasoning = ''small talk'', follow_up_hours = JNull\<rparr>,
      chatReply = ChatText ''I am here.'', proactiveReply = Some ''Good morning!'',
      gateway = (\<lambda>t. Delivered), random = (\<lambda>k. 0)\<rparr>"

text \<open>
  An environment in which the external layer fails or answers \<open>low\<close>; and the text
  that \<open>handleMessage\<close> hands to \<open>sendResponse\<close> at its end, put together from the
  crisis response, the generated reply and the onboarding prompt.
\<close>

definition lowOrFailing :: "env \<Rightarrow> bool" where
  "lowOrFailing e =
     (\<not> clientConfigured e \<or>
      (case assessReply e of
         AssessApiError \<Rightarrow> True
       | AssessUnparsable \<Rightarrow> True
       | AssessParsed a \<Rightarrow> level a = [] \<or> level a = ''low''))"

definition composedReply :: "crisisResult \<Rightarrow> string \<Rightarrow> onboardingResult \<Rightarrow> string option" where
  "composedReply crisis resp r =
     (let withCrisis = (case crisisResponse crisis of
                          None \<Rightarrow> resp
                        | Some c \<Rightarrow> if isCrisis crisis \<and> c \<noteq> []
                                    then c @ nl @ nl @ resp else resp)
      in Some (case response r of
                 None \<Rightarrow> withCrisis
               | Some x \<Rightarrow> if x = [] then withCrisis else withCrisis @ nl @ nl @ x))"

text \<open>A sample store with a schedule whose check-in is due.\<close>

definition scheduledWorld :: world where
  "scheduledWorld =
     sampleWorld\<lparr>schedules := [''15551234567'' \<mapsto>
        \<lparr>nextCheckIn = Some 1699952400000, nextJournalPrompt = Some 1700078400000,
         followUps = []\<rparr>]\<rparr>"

section \<open>String facts\<close>

lemma startsWith_map:
  "startsWith s p \<Longrightarrow> startsWith (map f s) (map f p)"
  by (simp add: startsWith_def take_map)

lemma includes_map:
  "includes_str s p \<Longrightarrow> includes_str (map f s) (map f p)"
proof (induction s)
  case Nil
  then show ?case by simp
next
  case (Cons c cs)
  from Cons.prems have "startsWith (c # cs) p \<or> includes_str cs p" by simp
  then show ?case
  proof
    assume "startsWith (c # cs) p"
    then have "startsWith (map f (c # cs)) (map f p)" by (rule startsWith_map)
    then show ?thesis by simp
  next
    assume "includes_str cs p"
    then have "includes_str (map f cs) (map f p)" by (rule Cons.IH)
    then show ?thesis by simp
  qed
qed

lemma positiveWords_lower:
  "w \<in> set positiveWords \<Longrightarrow> toLowerCase w = w"
  by (auto simp add: positiveWords_def toLowerCase_def toLowerChar_def)

lemma includes_toLowerCase_positive:
  assumes "w \<in> set positiveWords" and "includes_str message w"
  shows "includes_str (toLowerCase message) w"
proof -
  from assms(2) have "includes_str (map toLowerChar message) (map toLowerChar w)"
    by (rule includes_map)
  with positiveWords_lower [OF assms(1)] show ?thesis
    by (simp add: toLowerCase_def)
qed

lemma includes_nonempty:
  "includes_str s p \<Longrightarrow> p \<noteq> [] \<Longrightarrow> s \<noteq> []"
  by (cases s) auto


section \<open>C10: positive phrases win in the check-in preference\<close>

lemma isCheckInResponse_nonempty: "isCheckInResponse message \<Longrightarrow> message \<noteq> []"
  by (auto simp add: isCheckInResponse_def)

lemma handleMessage_no_text:
  "content wd = Some [] \<or> content wd = None \<Longrightarrow> handleMessage e wd w = (Inr (), w)"
  by (auto simp add: handleMessage_def split: option.split)

text \<open>
  Claim C10.  \<open>parseCheckInPreference\<close> is given the text of an event, and that text is
  never empty: \<open>handleMessage\<close> drops an event without text, and
  \<open>processOnboarding\<close> calls the parser only behind \<open>isCheckInResponse\<close>, which is
  false of the empty text.  For a text that is not empty the parser answers opt-in exactly
  when the lower-cased text contains one of the nine positive phrases or none of the five
  negative phrases.  So a text with a positive phrase, as written or in lower case, is
  opt-in whatever else it contains, a negative phrase included; and a text with neither a
  positive nor a negative phrase is opt-in.
\<close>

theorem parseCheckInPreference_positive_first:
  "(message \<noteq> [] \<longrightarrow>
      parseCheckInPreference message =
        (list_ex (includes_str (toLowerCase message))
           [''yes'', ''sure'', ''okay'', ''ok'', ''yeah'', ''yep'', ''please'', ''would love'',
            ''sounds good''] \<or>
         \<not> list_ex (includes_str (toLowerCase message))
             [''no'', ''nope'', ''don't'', ''not really'', ''pass''])) \<and>
   (w \<in> set [''yes'', ''sure'', ''okay'', ''ok'', ''yeah'', ''yep'', ''please'', ''would love'',
              ''sounds good''] \<and>
      (includes_str message w \<or> includes_str (toLowerCase message) w)
      \<longrightarrow> parseCheckInPreference message) \<and>
   (message \<noteq> [] \<and>
      \<not> list_ex (includes_str (toLowerCase message))
          [''yes'', ''sure'', ''okay'', ''ok'', ''yeah'', ''yep'', ''please'', ''would love'',
           ''sounds good''] \<and>
      \<not> list_ex (includes_str (toLowerCase message))
          [''no'', ''nope'', ''don't'', ''not really'', ''pass'']
      \<longrightarrow> parseCheckInPreference message) \<and>
   (isCheckInResponse message \<longrightarrow> message \<noteq> []) \<and>
   (content wd = Some [] \<longrightarrow> handleMessage e wd world = (Inr (), world))"
proof -
  have pw: "[''yes'', ''sure'', ''okay'', ''ok'', ''yeah'', ''yep'', ''please'', ''would love'',
            ''sounds good''] = positiveWords"
    by (simp add: positiveWords_def)
  have nw: "[''no'', ''nope'', ''don't'', ''not really'', ''pass''] = negativeWords"
    by (simp add: negativeWords_def)
  have 1: "message \<noteq> [] \<longrightarrow>
      parseCheckInPreference message =
        (list_ex (includes_str (toLowerCase message)) positiveWords \<or>
         \<not> list_ex (includes_str (toLowerCase message)) negativeWords)"
    by (auto simp add: parseCheckInPreference_def Let_def)
  have 2: "w \<in> set positiveWords \<and>
      (includes_str message w \<or> includes_str (toLowerCase message) w)
      \<longrightarrow> parseCheckInPreference message"
  proof
    assume a: "w \<in> set positiveWords \<and>
      (includes_str message w \<or> includes_str (toLowerCase message) w)"
    then have w: "w \<in> set positiveWords" by simp
    from a have low: "includes_str (toLowerCase message) w"
      using includes_toLowerCase_positive [OF w] by blast
    from w have "w \<noteq> []" by (auto simp add: positiveWords_def)
    with low have "toLowerCase message \<noteq> []" using includes_nonempty by blast
    then have ne: "message \<noteq> []" by (simp add: toLowerCase_def)
    from w low have "list_ex (includes_str (toLowerCase message)) positiveWords"
      unfolding list_ex_iff by blast
    with ne show "parseCheckInPreference message"
      by (simp add: parseCheckInPreference_def)
  qed
  have 3: "message \<noteq> [] \<and> \<not> list_ex (includes_str (toLowerCase message)) positiveWords \<and>
      \<not> list_ex (includes_str (toLowerCase message)) negativeWords
      \<longrightarrow> parseCheckInPreference message"
    by (simp add: parseCheckInPreference_def)
  have 4: "isCheckInResponse message \<longrightarrow> message \<noteq> []"
    using isCheckInResponse_nonempty by blast
  have 5: "content wd = Some [] \<longrightarrow> handleMessage e wd world = (Inr (), world)"
    using handleMessage_no_text [of wd e world] by blast
  from 1 2 3 4 5 show ?thesis unfolding pw nw by (intro conjI)
qed

text \<open>
  The theorem at three texts: one with both a negative and a positive phrase, one with
  neither, and one with a negative phrase only.
\<close>

theorem parseCheckInPreference_positive_first_witness:
  "includes_str (toLowerCase ''No, but yes please'') ''no'' \<and>
   parseCheckInPreference ''No, but yes please'' \<and> parseCheckInPreference ''maybe later'' \<and>
   \<not> parseCheckInPreference ''Nope'' \<and> isCheckInResponse ''No, but yes please''"
proof -
  let ?pos = "[''yes'', ''sure'', ''okay'', ''ok'', ''yeah'', ''yep'', ''please'', ''would love'',
            ''sounds good'']"
  let ?neg = "[''no'', ''nope'', ''don't'', ''not really'', ''pass'']"
  have 0: "includes_str (toLowerCase ''No, but yes please'') ''no''" by code_simp
  have 1: "''yes'' \<in> set ?pos" by simp
  have 2: "includes_str ''No, but yes please'' ''yes''" by (simp add: startsWith_def)
  have 3: "\<not> list_ex (includes_str (toLowerCase ''maybe later'')) ?pos" by code_simp
  have 4: "\<not> list_ex (includes_str (toLowerCase ''maybe later'')) ?neg" by code_simp
  have 5: "\<not> list_ex (includes_str (toLowerCase ''Nope'')) ?pos" by code_simp
  have 6: "list_ex (includes_str (toLowerCase ''Nope'')) ?neg" by code_simp
  have 7: "isCheckInResponse ''No, but yes please''" by code_simp
  note a = parseCheckInPreference_positive_first [of "''No, but yes please''" "''yes''", THEN conjunct2, THEN conjunct1, THEN mp]
  note b = parseCheckInPreference_positive_first [of "''maybe later''" "''yes''", THEN conjunct2, THEN conjunct2, THEN conjunct1,
      THEN mp]
  note c = parseCheckInPreference_positive_first [of "''Nope''" "''yes''", THEN conjunct1, THEN mp]
  have A: "parseCheckInPreference ''No, but yes please''" using a 1 2 by blast
  have B: "parseCheckInPreference ''maybe later''" using b 3 4 by simp
  have C: "\<not> parseCheckInPreference ''Nope''" using c 5 6 by simp
  from 0 A B C 7 show ?thesis by (intro conjI)
qed


section \<open>C8: the hard cutoff of \<open>splitMessage\<close>\<close>

lemma startsWith_set: "startsWith s p \<Longrightarrow> set p \<subseteq> set s"
proof -
  assume "startsWith s p"
  then have "p = take (length p) s" by (simp add: startsWith_def)
  then have "set p = set (take (length p) s)" by simp
  then show ?thesis using set_take_subset [of "length p" s] by simp
qed

lemma lastIndexFrom_absent: "\<not> set p \<subseteq> set s \<Longrightarrow> lastIndexFrom s p i = - 1"
proof (induction i)
  case 0
  then show ?case using startsWith_set [of s p] by auto
next
  case (Suc i)
  have "\<not> startsWith (drop (Suc i) s) p"
  proof
    assume "startsWith (drop (Suc i) s) p"
    then have "set p \<subseteq> set (drop (Suc i) s)" by (rule startsWith_set)
    then have "set p \<subseteq> set s" using set_drop_subset [of "Suc i" s] by blast
    with Suc.prems show False by simp
  qed
  with Suc show ?case by simp
qed

lemma lastIndexOf_absent: "\<not> set p \<subseteq> set s \<Longrightarrow> lastIndexOf s p pos = - 1"
  by (simp add: lastIndexOf_def lastIndexFrom_absent)

lemma dropWhile_replicate_keep: "\<not> P a \<Longrightarrow> dropWhile P (replicate n a) = replicate n a"
  by (cases n) simp_all

lemma trim_replicate: "\<not> isWhitespace a \<Longrightarrow> trim (replicate n a) = replicate n a"
  by (simp add: trim_def dropWhile_replicate_keep)

lemma splitMessage_breakPoint_replicate:
  assumes "a \<noteq> CHR 0x0A" "a \<noteq> CHR ''.''" "a \<noteq> CHR '' ''"
  shows "splitMessage_breakPoint (replicate n a) m = int m"
proof -
  have s: "set (replicate n a) \<subseteq> {a}" by auto
  have 1: "lastIndexOf (replicate n a) [CHR 0x0A, CHR 0x0A] m = - 1"
    using assms s by (intro lastIndexOf_absent) auto
  have 2: "lastIndexOf (replicate n a) [CHR 0x0A] m = - 1"
    using assms s by (intro lastIndexOf_absent) auto
  have 3: "lastIndexOf (replicate n a) ''. '' m = - 1"
    using assms s by (intro lastIndexOf_absent) auto
  have 4: "lastIndexOf (replicate n a) '' '' m = - 1"
    using assms s by (intro lastIndexOf_absent) auto
  show ?thesis by (simp add: splitMessage_breakPoint_def 1 2 3 4)
qed

text \<open>
  A text of \<open>maxLength + 1\<close> characters with no white space and no full stop has no
  break point, the cutoff is set to \<open>maxLength\<close>, and \<open>substring(0, breakPoint + 1)\<close>
  takes all \<open>maxLength + 1\<close> characters as one segment.
\<close>

lemma splitMessage_hard_cutoff:
  assumes "a \<noteq> CHR 0x0A" "a \<noteq> CHR ''.''" "a \<noteq> CHR '' ''" "\<not> isWhitespace a"
  shows "splitMessage (replicate (Suc m) a) m = [replicate (Suc m) a]"
proof -
  have bp: "splitMessage_breakPoint (replicate (Suc m) a) m = int m"
    using assms(1-3) by (rule splitMessage_breakPoint_replicate)
  have n: "nat (int m + 1) = Suc m" by simp
  have t: "trim (replicate (Suc m) a) = replicate (Suc m) a"
    using assms(4) by (rule trim_replicate)
  have e: "trim [] = []" by (simp add: trim_def)
  have "splitMessage_loop (replicate (Suc m) a) m = [replicate (Suc m) a]"
    by (subst splitMessage_loop.simps, subst splitMessage_loop.simps)
      (simp add: bp n t e substring_def substringFrom_def del: replicate_Suc)
  then show ?thesis by (simp add: splitMessage_def del: replicate_Suc)
qed

text \<open>
  Claim C8 at the text of 1601 letters \<open>a\<close> and the configured maximum 1600: the code
  returns the whole text as a single segment of 1601 characters, one more than the
  maximum the claim promises for the hard cutoff.
\<close>

theorem splitMessage_exceeds_maximum:
  "splitMessage (replicate 1601 (CHR ''a'')) 1600 = [replicate 1601 (CHR ''a'')] \<and>
   list_ex (\<lambda>segment. 1600 < length segment)
     (splitMessage (replicate 1601 (CHR ''a'')) 1600)"
proof -
  have w: "\<not> isWhitespace (CHR ''a'')" by (simp add: isWhitespace_def)
  have "splitMessage (replicate (Suc 1600) (CHR ''a'')) 1600
      = [replicate (Suc 1600) (CHR ''a'')]"
    by (rule splitMessage_hard_cutoff) (simp_all add: w)
  moreover have "Suc 1600 = 1601" by simp
  ultimately have "splitMessage (replicate 1601 (CHR ''a'')) 1600
      = [replicate 1601 (CHR ''a'')]"
    by simp
  then show ?thesis by simp
qed


section \<open>C1: the merged risk level\<close>

lemma detectCrisis_no_assessment:
  "assessWithLLM e message hist = None \<Longrightarrow>
   fst (detectCrisis e phone message hist w) = keywordOnlyResult message"
  by (simp add: detectCrisis_def Let_def keywordOnlyResult_def keywordFloor_def)

lemma detectCrisis_level:
  "assessWithLLM e message hist = Some a \<Longrightarrow>
   riskLevel (fst (detectCrisis e phone message hist w))
     = (if riskOrder (level a) > riskOrder (keywordFloor message)
        then level a else keywordFloor message)"
  by (simp add: detectCrisis_def Let_def keywordFloor_def split: jsnumber.split)

lemma riskOrder_specLevelBelow:
  "x \<in> set specLevels \<Longrightarrow> y \<in> set specLevels \<Longrightarrow>
   (riskOrder x < riskOrder y) = specLevelBelow x y"
  by (auto simp add: specLevels_def specLevelBelow_def riskOrder_def)

lemma riskOrder_off_scale: "l \<notin> set specLevels \<Longrightarrow> riskOrder l = 0"
  by (simp add: specLevels_def riskOrder_def)

lemma keywordFloor_specLevels: "keywordFloor message \<in> set specLevels"
  by (simp add: keywordFloor_def specLevels_def)

lemma detectCrisis_assessed:
  assumes "assessWithLLM e message hist = Some a"
  shows "fst (detectCrisis e phone message hist w)
     = (let lvl = (if riskOrder (keywordFloor message) < riskOrder (level a)
                   then level a else keywordFloor message)
        in \<lparr>isCrisis = (lvl \<noteq> ''low''), riskLevel = lvl,
            keywordMatch = containsCrisisKeyword message,
            crisisResponse = (if lvl \<noteq> ''low'' then getCrisisResponse lvl else None),
            shouldFollowUp = (follow_up_hours a \<noteq> JNull),
            followUpHours = follow_up_hours a\<rparr>)"
proof -
  have h: "riskOrder ''high'' < riskOrder (level a) \<Longrightarrow> level a \<noteq> ''low''"
    by (auto simp add: riskOrder_def)
  have l: "\<not> riskOrder ''high'' < riskOrder ''low''" by (simp add: riskOrder_def)
  show ?thesis
    using assms h l
    by (simp add: detectCrisis_def Let_def keywordFloor_def split: jsnumber.split)
qed

text \<open>
  Claim C1.  The floor of the keyword layer is \<open>high\<close> on a match and \<open>low\<close>
  otherwise.  When the language model answers an assessment \<open>a\<close> whose level is one of
  the four levels, the level returned by \<open>detectCrisis\<close> is the greater of the floor
  and the level of \<open>a\<close> under \<open>low < medium < high < critical\<close>.  When the level
  of \<open>a\<close> is none of the four, the returned level is the floor, and the result is the
  one of the keyword layer alone but for the two follow-up fields, which are taken from
  \<open>a\<close>.  In every case the returned level is not below the floor, the result is a
  crisis exactly when its level is not \<open>low\<close>, and a crisis carries the crisis response
  of its level.  Without a client, when the request fails or throws, when the answer cannot
  be parsed and when it carries no level, the result is the one of the keyword layer
  alone.
\<close>

theorem detectCrisis_merges_levels:
  "(let r = fst (detectCrisis (e\<lparr>clientConfigured := True, assessReply := AssessParsed a\<rparr>)
                phone message hist w)
    in (level a \<in> set specLevels \<longrightarrow>
          riskLevel r = specMaxLevel (keywordFloor message) (level a)) \<and>
       (level a \<notin> set specLevels \<longrightarrow>
          riskLevel r = keywordFloor message \<and>
          r\<lparr>shouldFollowUp := False, followUpHours := JNull\<rparr> = keywordOnlyResult message) \<and>
       \<not> specLevelBelow (riskLevel r) (keywordFloor message) \<and>
       isCrisis r = (riskLevel r \<noteq> ''low'') \<and>
       crisisResponse r = (if isCrisis r then getCrisisResponse (riskLevel r) else None)) \<and>
   fst (detectCrisis (e\<lparr>clientConfigured := False\<rparr>) phone message hist w)
     = keywordOnlyResult message \<and>
   fst (detectCrisis (e\<lparr>assessReply := AssessApiError\<rparr>) phone message hist w)
     = keywordOnlyResult message \<and>
   fst (detectCrisis (e\<lparr>assessReply := AssessUnparsable\<rparr>) phone message hist w)
     = keywordOnlyResult message \<and>
   fst (detectCrisis (e\<lparr>assessReply := AssessParsed (a\<lparr>level := []\<rparr>)\<rparr>)
          phone message hist w)
     = keywordOnlyResult message"
proof (intro conjI)
  let ?e = "e\<lparr>clientConfigured := True, assessReply := AssessParsed a\<rparr>"
  let ?r = "fst (detectCrisis ?e phone message hist w)"
  have main: "(level a \<in> set specLevels \<longrightarrow>
          riskLevel ?r = specMaxLevel (keywordFloor message) (level a)) \<and>
       (level a \<notin> set specLevels \<longrightarrow>
          riskLevel ?r = keywordFloor message \<and>
          ?r\<lparr>shouldFollowUp := False, followUpHours := JNull\<rparr> = keywordOnlyResult message) \<and>
       \<not> specLevelBelow (riskLevel ?r) (keywordFloor message) \<and>
       isCrisis ?r = (riskLevel ?r \<noteq> ''low'') \<and>
       crisisResponse ?r = (if isCrisis ?r then getCrisisResponse (riskLevel ?r) else None)"
  proof (cases "level a = []")
    case True
    then have "assessWithLLM ?e message hist = None" by (simp add: assessWithLLM_def)
    then have r: "?r = keywordOnlyResult message" by (rule detectCrisis_no_assessment)
    have n: "level a \<notin> set specLevels" using True by (simp add: specLevels_def)
    show ?thesis
      unfolding r using n
      by (simp add: keywordOnlyResult_def keywordFloor_def specLevelBelow_def
          getCrisisResponse_def)
  next
    case False
    then have s: "assessWithLLM ?e message hist = Some a" by (simp add: assessWithLLM_def)
    note r = detectCrisis_assessed [OF s, of phone w]
    show ?thesis
    proof (cases "level a \<in> set specLevels")
      case True
      have b: "(riskOrder (keywordFloor message) < riskOrder (level a))
          = specLevelBelow (keywordFloor message) (level a)"
        using keywordFloor_specLevels True by (rule riskOrder_specLevelBelow)
      show ?thesis
        unfolding r Let_def b using True
        by (auto simp add: specMaxLevel_def specLevelBelow_def keywordFloor_def specLevels_def)
    next
      case off: False
      have z: "riskOrder (level a) = 0" using off by (rule riskOrder_off_scale)
      show ?thesis
        unfolding r Let_def z using off
        by (simp add: keywordOnlyResult_def keywordFloor_def specLevelBelow_def)
    qed
  qed
  then show "let r = ?r
    in (level a \<in> set specLevels \<longrightarrow>
          riskLevel r = specMaxLevel (keywordFloor message) (level a)) \<and>
       (level a \<notin> set specLevels \<longrightarrow>
          riskLevel r = keywordFloor message \<and>
          r\<lparr>shouldFollowUp := False, followUpHours := JNull\<rparr> = keywordOnlyResult message) \<and>
       \<not> specLevelBelow (riskLevel r) (keywordFloor message) \<and>
       isCrisis r = (riskLevel r \<noteq> ''low'') \<and>
       crisisResponse r = (if isCrisis r then getCrisisResponse (riskLevel r) else None)"
    by (simp add: Let_def)
qed (simp_all add: detectCrisis_no_assessment assessWithLLM_def)

text \<open>
  The theorem at three assessments: \<open>medium\<close> for a text with a keyword and for a
  text without one, and the level \<open>severe\<close>, which is none of the four, for a text
  with a keyword.
\<close>

theorem detectCrisis_merges_levels_witness:
  "riskLevel (fst (detectCrisis
       (sampleEnv\<lparr>clientConfigured := True, assessReply := AssessParsed
          \<lparr>level = ''medium'', reasoning = ''distress'', follow_up_hours = JNull\<rparr>\<rparr>)
       ''15551234567'' ''I want to kill myself'' [] sampleWorld)) = ''high'' \<and>
   riskLevel (fst (detectCrisis
       (sampleEnv\<lparr>clientConfigured := True, assessReply := AssessParsed
          \<lparr>level = ''medium'', reasoning = ''distress'', follow_up_hours = JNull\<rparr>\<rparr>)
       ''15551234567'' ''hello there'' [] sampleWorld)) = ''medium'' \<and>
   riskLevel (fst (detectCrisis
       (sampleEnv\<lparr>clientConfigured := True, assessReply := AssessParsed
          \<lparr>level = ''severe'', reasoning = ''distress'', follow_up_hours = JNumber 4\<rparr>\<rparr>)
       ''15551234567'' ''I want to kill myself'' [] sampleWorld)) = ''high''"
proof -
  let ?medium = "\<lparr>level = ''medium'', reasoning = ''distress'', follow_up_hours = JNull\<rparr>"
  let ?severe = "\<lparr>level = ''severe'', reasoning = ''distress'', follow_up_hours = JNumber 4\<rparr>"
  have k1: "keywordFloor ''I want to kill myself'' = ''high''"
  proof -
    have "containsCrisisKeyword ''I want to kill myself''" by code_simp
    then show ?thesis by (simp add: keywordFloor_def)
  qed
  have k2: "keywordFloor ''hello there'' = ''low''"
  proof -
    have "\<not> containsCrisisKeyword ''hello there''" by code_simp
    then show ?thesis by (simp add: keywordFloor_def)
  qed
  have on: "level ?medium \<in> set specLevels" by (simp add: specLevels_def)
  have off: "level ?severe \<notin> set specLevels" by (simp add: specLevels_def)
  have m1: "specMaxLevel ''high'' ''medium'' = ''high''"
    and m2: "specMaxLevel ''low'' ''medium'' = ''medium''"
    by (simp_all add: specMaxLevel_def specLevelBelow_def)
  note a = detectCrisis_merges_levels [of ?medium sampleEnv "''15551234567''" "''I want to kill myself''" "[]"
      sampleWorld, unfolded Let_def, THEN conjunct1, THEN conjunct1, THEN mp, OF on]
  note b = detectCrisis_merges_levels [of ?medium sampleEnv "''15551234567''" "''hello there''" "[]"
      sampleWorld, unfolded Let_def, THEN conjunct1, THEN conjunct1, THEN mp, OF on]
  note c = detectCrisis_merges_levels [of ?severe sampleEnv "''15551234567''" "''I want to kill myself''" "[]"
      sampleWorld, unfolded Let_def, THEN conjunct1, THEN conjunct2, THEN conjunct1, THEN mp,
      OF off, THEN conjunct1]
  from a b c show ?thesis by (simp add: k1 k2 m1 m2)
qed


section \<open>What the services record\<close>

lemma sendSegments_calls: "calls (snd (sendSegments e phone msgs w)) = calls w"
  by (induction msgs arbitrary: w) (simp_all split: send_outcome.split)

lemma sendResponse_calls:
  "calls (snd (sendResponse e phone t w)) = calls w @ [SendResponse t]"
  by (simp add: sendResponse_def Let_def sendSegments_calls split: option.split)

lemma logCrisisEvent_calls: "calls (logCrisisEvent e phone m r w) = calls w"
  by (simp add: logCrisisEvent_def logCrisis_def Let_def)

lemma scheduleFollowUp_calls: "calls (scheduleFollowUp e phone h l w) = calls w"
  by (simp add: scheduleFollowUp_def addFollowUp_def setSchedule_def Let_def)

lemma detectCrisis_calls:
  "calls (snd (detectCrisis e phone message hist w)) = calls w @ [DetectCrisis]"
  by (simp add: detectCrisis_def Let_def logCrisisEvent_calls scheduleFollowUp_calls
      split: jsnumber.split option.split)

lemma detectCrisis_isCrisis:
  "isCrisis (fst (detectCrisis e phone message hist w))
     = (riskLevel (fst (detectCrisis e phone message hist w)) \<noteq> ''low'')"
  by (simp add: detectCrisis_def Let_def split: option.split jsnumber.split)

lemma detectCrisis_crisisResponse:
  "crisisResponse (fst (detectCrisis e phone message hist w))
     = (if isCrisis (fst (detectCrisis e phone message hist w))
        then getCrisisResponse (riskLevel (fst (detectCrisis e phone message hist w)))
        else None)"
  by (simp add: detectCrisis_def Let_def split: option.split jsnumber.split)

lemma handleCommands_unhandled:
  "\<not> fst (fst (handleCommands e phone message user w))
   \<Longrightarrow> handleCommands e phone message user w = ((False, None), w)"
  by (simp add: handleCommands_def Let_def split: if_splits)

lemma sample_phone: "normalizePhoneNumber (phoneNumber (sampleEvent m)) = Some ''15551234567''"
  unfolding sampleEvent_def by code_simp

lemma sample_user: "users sampleWorld ''15551234567'' = Some sampleUser"
  by (simp add: sampleWorld_def)

section \<open>C3: a critical assessment short-circuits the handler\<close>

text \<open>
  Claim C3.  Take a text event that reaches the risk assessment (a valid phone number and
  text, a profile that is not new, a text that is neither a command nor a journal entry)
  and that \<open>detectCrisis\<close> assesses \<open>critical\<close>.  Then \<open>handleMessage\<close> does nothing
  after the assessment but send the critical crisis response, with the fallback text
  after it when the gateway throws: no call of \<open>generateResponse\<close> and no call of
  \<open>processOnboarding\<close> is made, and no other text is handed to \<open>sendResponse\<close>.
\<close>

theorem critical_short_circuits:
  assumes "normalizePhoneNumber (phoneNumber wd) = Some phone" and "phone \<noteq> []"
    and "content wd = Some message" and "message \<noteq> []"
    and "users w phone = Some user" and "stats user = Some st" and "messageCount st \<noteq> 0"
    and "\<not> fst (fst (handleCommands e phone message user w))"
    and "\<not> isJournalEntry message"
    and "riskLevel (fst (detectCrisis e phone message (getConversationHistory phone 10 w) w))
           = ''critical''"
  shows "handleMessage e wd w =
           (case sendResponse e phone (getCrisisResponse ''critical'')
                   (snd (detectCrisis e phone message (getConversationHistory phone 10 w) w)) of
              (Inr u, w2) \<Rightarrow> (Inr u, w2)
            | (Inl x, w2) \<Rightarrow> sendResponse e phone (Some fallbackText) w2) \<and>
         GenerateResponse \<notin> set (newCalls w (snd (handleMessage e wd w))) \<and>
         ProcessOnboarding \<notin> set (newCalls w (snd (handleMessage e wd w))) \<and>
         (\<forall>t. SendResponse t \<in> set (newCalls w (snd (handleMessage e wd w)))
           \<longrightarrow> t = getCrisisResponse ''critical'' \<or> t = Some fallbackText)"
proof -
  obtain r w1 where
    d: "detectCrisis e phone message (getConversationHistory phone 10 w) w = (r, w1)"
    by (cases "detectCrisis e phone message (getConversationHistory phone 10 w) w")
  from assms(10) d have lvl: "riskLevel r = ''critical''" by simp
  have rc: "isCrisis r"
    using detectCrisis_isCrisis [of e phone message "getConversationHistory phone 10 w" w] d lvl
    by simp
  have resp: "crisisResponse r = getCrisisResponse ''critical''"
    using detectCrisis_crisisResponse [of e phone message "getConversationHistory phone 10 w" w]
      d lvl rc by simp
  have g: "getOrCreateUser e phone w = (user, w)"
    using assms(5) by (simp add: getOrCreateUser_def getUser_def)
  have c: "handleCommands e phone message user w = ((False, None), w)"
    using assms(8) by (rule handleCommands_unhandled)
  have body: "handleMessage_try e phone message w
      = sendResponse e phone (getCrisisResponse ''critical'') w1"
    using assms(6,7,9) g c d lvl rc resp by (simp add: handleMessage_try_def Let_def)
  have eq: "handleMessage e wd w =
           (case sendResponse e phone (getCrisisResponse ''critical'') w1 of
              (Inr u, w2) \<Rightarrow> (Inr u, w2)
            | (Inl x, w2) \<Rightarrow> sendResponse e phone (Some fallbackText) w2)"
    using assms(1-4) body
    by (simp add: handleMessage_def split: prod.split sum.split)
  have c1: "calls w1 = calls w @ [DetectCrisis]"
    using detectCrisis_calls [of e phone message "getConversationHistory phone 10 w" w] d
    by simp
  obtain res w2 where s: "sendResponse e phone (getCrisisResponse ''critical'') w1 = (res, w2)"
    by (cases "sendResponse e phone (getCrisisResponse ''critical'') w1")
  have c2: "calls w2 = calls w @ [DetectCrisis, SendResponse (getCrisisResponse ''critical'')]"
    using sendResponse_calls [of e phone "getCrisisResponse ''critical''" w1] s c1 by simp
  have "newCalls w (snd (handleMessage e wd w))
           = [DetectCrisis, SendResponse (getCrisisResponse ''critical'')]
      \<or> newCalls w (snd (handleMessage e wd w))
           = [DetectCrisis, SendResponse (getCrisisResponse ''critical''),
              SendResponse (Some fallbackText)]"
  proof (cases res)
    case (Inl x)
    then have "handleMessage e wd w = sendResponse e phone (Some fallbackText) w2"
      using eq s by simp
    then show ?thesis
      using sendResponse_calls [of e phone "Some fallbackText" w2] c2
      by (simp add: newCalls_def)
  next
    case (Inr u)
    then have "handleMessage e wd w = (Inr u, w2)" using eq s by simp
    then show ?thesis using c2 by (simp add: newCalls_def)
  qed
  then have "GenerateResponse \<notin> set (newCalls w (snd (handleMessage e wd w))) \<and>
         ProcessOnboarding \<notin> set (newCalls w (snd (handleMessage e wd w))) \<and>
         (\<forall>t. SendResponse t \<in> set (newCalls w (snd (handleMessage e wd w)))
           \<longrightarrow> t = getCrisisResponse ''critical'' \<or> t = Some fallbackText)"
    by auto
  with eq d show ?thesis by simp
qed

text \<open>
  The theorem at the sample event with the text \<open>i cannot do this anymore\<close>, which has
  no crisis keyword and which the sample environment assesses \<open>critical\<close>.
\<close>

theorem critical_short_circuits_witness:
  "\<not> containsCrisisKeyword ''i cannot do this anymore'' \<and>
   riskLevel (fst (detectCrisis sampleEnv ''15551234567'' ''i cannot do this anymore''
      (getConversationHistory ''15551234567'' 10 sampleWorld) sampleWorld)) = ''critical'' \<and>
   GenerateResponse \<notin> set (newCalls sampleWorld
      (snd (handleMessage sampleEnv (sampleEvent ''i cannot do this anymore'') sampleWorld))) \<and>
   ProcessOnboarding \<notin> set (newCalls sampleWorld
      (snd (handleMessage sampleEnv (sampleEvent ''i cannot do this anymore'') sampleWorld)))"
proof -
  let ?m = "''i cannot do this anymore''"
  let ?p = "''15551234567''"
  have k: "\<not> containsCrisisKeyword ?m" by code_simp
  have low: "trim (toLowerCase ?m) = ?m" by code_simp
  have 1: "normalizePhoneNumber (phoneNumber (sampleEvent ?m)) = Some ?p"
    by (rule sample_phone)
  have 3: "content (sampleEvent ?m) = Some ?m" by (simp add: sampleEvent_def)
  have 6: "stats sampleUser = Some \<lparr>lastActive = 0, messageCount = 12, journalCount = 0\<rparr>"
    by (simp add: sampleUser_def)
  have 8: "\<not> fst (fst (handleCommands sampleEnv ?p ?m sampleUser sampleWorld))"
    by (simp add: handleCommands_def low)
  have 9: "\<not> isJournalEntry ?m"
    by (simp add: isJournalEntry_def low journalPrefixes_def startsWith_def)
  have a: "assessWithLLM sampleEnv ?m (getConversationHistory ?p 10 sampleWorld)
      = Some \<lparr>level = ''critical'', reasoning = ''explicit intent'',
               follow_up_hours = JNumber 2\<rparr>"
    by (simp add: assessWithLLM_def sampleEnv_def)
  have 10: "riskLevel (fst (detectCrisis sampleEnv ?p ?m
      (getConversationHistory ?p 10 sampleWorld) sampleWorld)) = ''critical''"
    using detectCrisis_level [OF a] by (simp add: keywordFloor_def riskOrder_def)
  have 2: "?p \<noteq> []" and 4: "?m \<noteq> []" by simp_all
  have 7: "messageCount \<lparr>lastActive = 0, messageCount = 12, journalCount = 0\<rparr> \<noteq> 0"
    by simp
  note th = critical_short_circuits [OF 1 2 3 4 sample_user 6 7 8 9 10]
  from th have "GenerateResponse \<notin> set (newCalls sampleWorld
      (snd (handleMessage sampleEnv (sampleEvent ?m) sampleWorld)))"
    by (elim conjE)
  moreover from th have "ProcessOnboarding \<notin> set (newCalls sampleWorld
      (snd (handleMessage sampleEnv (sampleEvent ?m) sampleWorld)))"
    by (elim conjE)
  ultimately show ?thesis using k 10 by (intro conjI)
qed


section \<open>What the services leave unchanged\<close>

lemma sendSegments_frame:
  "users (snd (sendSegments e phone msgs w)) = users w \<and>
   crisisLogs (snd (sendSegments e phone msgs w)) = crisisLogs w \<and>
   journals (snd (sendSegments e phone msgs w)) = journals w \<and>
   schedules (snd (sendSegments e phone msgs w)) = schedules w"
  by (induction msgs arbitrary: w) (simp_all split: send_outcome.split)

lemma sendResponse_frame:
  "users (snd (sendResponse e phone t w)) = users w \<and>
   crisisLogs (snd (sendResponse e phone t w)) = crisisLogs w \<and>
   journals (snd (sendResponse e phone t w)) = journals w \<and>
   schedules (snd (sendResponse e phone t w)) = schedules w"
  by (simp add: sendResponse_def Let_def sendSegments_frame split: option.split)

lemma getCurrentStage_users:
  "users w' = users w \<Longrightarrow> getCurrentStage p w' = getCurrentStage p w"
  by (simp add: getCurrentStage_def getUser_def)

lemma getOrCreateUser_cases:
  "(users w phone = None \<and>
      getOrCreateUser e phone w =
        (\<lparr>name = None, onboardingStage = 0,
          stats = Some \<lparr>lastActive = now e, messageCount = 0, journalCount = 0\<rparr>\<rparr>,
         setUser phone \<lparr>name = None, onboardingStage = 0,
          stats = Some \<lparr>lastActive = now e, messageCount = 0, journalCount = 0\<rparr>\<rparr> w)) \<or>
   (\<exists>u. users w phone = Some u \<and> getOrCreateUser e phone w = (u, w))"
  by (cases "users w phone") (simp_all add: getOrCreateUser_def getUser_def createUser_def Let_def)

lemma getOrCreateUser_frame:
  "getCurrentStage p (snd (getOrCreateUser e phone w)) = getCurrentStage p w \<and>
   crisisLogs (snd (getOrCreateUser e phone w)) = crisisLogs w \<and>
   journals (snd (getOrCreateUser e phone w)) = journals w \<and>
   schedules (snd (getOrCreateUser e phone w)) = schedules w \<and>
   calls (snd (getOrCreateUser e phone w)) = calls w \<and>
   users (snd (getOrCreateUser e phone w)) phone = Some (fst (getOrCreateUser e phone w))"
  using getOrCreateUser_cases [of w phone e]
  by (auto simp add: getCurrentStage_def getUser_def setUser_def)

lemma journal_not_command:
  "isJournalEntry message \<Longrightarrow> \<not> fst (fst (handleCommands e phone message user w))"
  by (auto simp add: handleCommands_def isJournalEntry_def journalPrefixes_def Let_def
      startsWith_def split: if_splits)

lemma isJournalEntry_nonempty: "isJournalEntry message \<Longrightarrow> message \<noteq> []"
  by (auto simp add: isJournalEntry_def)

lemma isWhitespace_toLowerChar: "isWhitespace (toLowerChar c) = isWhitespace c"
proof -
  have "(of_char c :: nat) mod 256 = of_char c" by simp
  then have n: "of_char c < (256 :: nat)" using mod_less_divisor [of 256 "of_char c :: nat"] by simp
  show ?thesis
  proof (cases "(65 \<le> (of_char c :: nat) \<and> (of_char c :: nat) \<le> 90) \<or>
      (192 \<le> (of_char c :: nat) \<and> (of_char c :: nat) \<le> 222 \<and> (of_char c :: nat) \<noteq> 215)")
    case True
    then have "toLowerChar c = char_of ((of_char c :: nat) + 32)"
      by (simp add: toLowerChar_def Let_def)
    moreover from True n have "(of_char (char_of ((of_char c :: nat) + 32)) :: nat) = of_char c + 32"
      by (auto simp add: of_char_of)
    ultimately show ?thesis using True by (auto simp add: isWhitespace_def)
  next
    case False
    then have "toLowerChar c = c" by (auto simp add: toLowerChar_def Let_def)
    then show ?thesis by simp
  qed
qed

lemma trim_toLowerCase: "trim (toLowerCase s) = toLowerCase (trim s)"
proof -
  have c: "isWhitespace \<circ> toLowerChar = isWhitespace"
    by (rule ext) (simp add: isWhitespace_toLowerChar)
  show ?thesis
    by (simp add: trim_def toLowerCase_def dropWhile_map rev_map c)
qed

lemma extractJournalContent_stripped:
  assumes "isJournalEntry message"
  shows "extractJournalContent message =
     (if startsWith (toLowerCase (trim message)) ''journal:''
      then trim (drop (length ''journal:'') (trim message))
      else trim (drop (length ''j:'') (trim message)))"
  using assms
  by (auto simp add: isJournalEntry_def extractJournalContent_def journalPrefixes_def
      trim_toLowerCase substringFrom_def)


lemma updateUser_stage:
  "(\<And>u. onboardingStage (f u) = onboardingStage u)
   \<Longrightarrow> getCurrentStage p (updateUser q f w) = getCurrentStage p w"
  by (simp add: updateUser_def setUser_def getUser_def getCurrentStage_def Let_def
      blankUser_def split: option.split)

lemma saveJournalEntry_effect:
  assumes "users w phone = Some u" and "stats u = Some st"
  shows "saveJournalEntry e phone message p w =
     ((True, getJournalAcknowledgment e),
      updateUser phone (\<lambda>u. u\<lparr>stats := Some (st\<lparr>journalCount := journalCount st + 1\<rparr>)\<rparr>)
        (addJournalEntry e phone (extractJournalContent message) p
           (w\<lparr>calls := calls w @ [SaveJournalEntry]\<rparr>)))"
  using assms by (simp add: saveJournalEntry_def Let_def getUser_def addJournalEntry_def)

lemma handleMessage_catch_frame:
  assumes "handleMessage_try e phone message w = (res, w1)"
    and "normalizePhoneNumber (phoneNumber wd) = Some phone" and "phone \<noteq> []"
    and "content wd = Some message" and "message \<noteq> []"
  shows "users (snd (handleMessage e wd w)) = users w1 \<and>
         crisisLogs (snd (handleMessage e wd w)) = crisisLogs w1 \<and>
         journals (snd (handleMessage e wd w)) = journals w1 \<and>
         schedules (snd (handleMessage e wd w)) = schedules w1 \<and>
         (calls (snd (handleMessage e wd w)) = calls w1 \<or>
          calls (snd (handleMessage e wd w)) = calls w1 @ [SendResponse (Some fallbackText)])"
proof (cases res)
  case (Inl x)
  with assms have "handleMessage e wd w = sendResponse e phone (Some fallbackText) w1"
    by (simp add: handleMessage_def)
  then show ?thesis by (simp add: sendResponse_frame sendResponse_calls)
next
  case (Inr u)
  with assms have "handleMessage e wd w = (Inr u, w1)" by (simp add: handleMessage_def)
  then show ?thesis by simp
qed

section \<open>C9: a journal entry short-circuits the handler\<close>

text \<open>
  Claim C9.  Take a text event with a valid phone number whose text is a journal entry,
  in a store where the profile of the sender, if there is one, has its \<open>stats\<close>.  Then
  \<open>handleMessage\<close> appends to the day's journal bucket the entry whose content is
  \<open>extractJournalContent\<close> of the text, which is the trimmed text without the prefix
  that matched, trimmed again; the crisis log and the onboarding stage of every identity
  are as before; and neither \<open>detectCrisis\<close> nor \<open>processOnboarding\<close> nor
  \<open>generateResponse\<close> nor \<open>advanceStage\<close> is called.  The content stored for
  \<open>j: I feel grateful today\<close> is \<open>I feel grateful today\<close>.
\<close>

theorem journal_entry_short_circuits:
  assumes "normalizePhoneNumber (phoneNumber wd) = Some phone" and "phone \<noteq> []"
    and "content wd = Some message" and "isJournalEntry message"
    and "\<forall>u. users w phone = Some u \<longrightarrow> stats u \<noteq> None"
  shows "(let w' = snd (handleMessage e wd w); bucket = (phone, utcDay (now e))
          in journals w' = (journals w)(bucket \<mapsto>
               (case journals w bucket of None \<Rightarrow> [] | Some es \<Rightarrow> es) @
               [\<lparr>jcontent = extractJournalContent message, prompted = False,
                 jtimestamp = now e\<rparr>]) \<and>
             crisisLogs w' = crisisLogs w \<and>
             (\<forall>p. getCurrentStage p w' = getCurrentStage p w) \<and>
             DetectCrisis \<notin> set (newCalls w w') \<and>
             ProcessOnboarding \<notin> set (newCalls w w') \<and>
             GenerateResponse \<notin> set (newCalls w w') \<and>
             (\<forall>n. AdvanceStage n \<notin> set (newCalls w w'))) \<and>
         extractJournalContent message =
           (if startsWith (toLowerCase (trim message)) ''journal:''
            then trim (drop (length ''journal:'') (trim message))
            else trim (drop (length ''j:'') (trim message))) \<and>
         extractJournalContent ''j: I feel grateful today'' = ''I feel grateful today''"
proof -
  obtain user w1 where g: "getOrCreateUser e phone w = (user, w1)"
    by (cases "getOrCreateUser e phone w")
  have f1: "(\<forall>p. getCurrentStage p w1 = getCurrentStage p w) \<and> crisisLogs w1 = crisisLogs w \<and>
      journals w1 = journals w \<and> calls w1 = calls w \<and> users w1 phone = Some user"
    using getOrCreateUser_frame [of _ e phone w] g by simp
  obtain st where st: "stats user = Some st"
    using getOrCreateUser_cases [of w phone e] g assms(5) by auto
  have ne: "message \<noteq> []" using assms(4) by (rule isJournalEntry_nonempty)
  have c: "handleCommands e phone message user w1 = ((False, None), w1)"
    using journal_not_command [OF assms(4)] by (rule handleCommands_unhandled)
  define w3 where "w3 = updateUser phone
      (\<lambda>u. u\<lparr>stats := Some (st\<lparr>journalCount := journalCount st + 1\<rparr>)\<rparr>)
      (addJournalEntry e phone (extractJournalContent message) False
         (w1\<lparr>calls := calls w1 @ [SaveJournalEntry]\<rparr>))"
  have sv: "saveJournalEntry e phone message False w1
      = ((True, getJournalAcknowledgment e), w3)"
    unfolding w3_def using f1 st by (intro saveJournalEntry_effect) simp_all
  have body: "handleMessage_try e phone message w
      = sendResponse e phone (Some (getJournalAcknowledgment e)) w3"
    using g st c sv assms(4) by (simp add: handleMessage_try_def Let_def)
  obtain res w4 where s: "sendResponse e phone (Some (getJournalAcknowledgment e)) w3 = (res, w4)"
    by (cases "sendResponse e phone (Some (getJournalAcknowledgment e)) w3")
  have f3: "journals w3 = (journals w)((phone, utcDay (now e)) \<mapsto>
               (case journals w (phone, utcDay (now e)) of None \<Rightarrow> [] | Some es \<Rightarrow> es) @
               [\<lparr>jcontent = extractJournalContent message, prompted = False,
                 jtimestamp = now e\<rparr>])"
    and l3: "crisisLogs w3 = crisisLogs w"
    and c3: "calls w3 = calls w @ [SaveJournalEntry]"
    using f1 by (simp_all add: w3_def updateUser_def setUser_def addJournalEntry_def Let_def
        getUser_def split: option.split)
  have s3: "\<forall>p. getCurrentStage p w3 = getCurrentStage p w"
  proof
    fix p
    have "getCurrentStage p w3 = getCurrentStage p
        (addJournalEntry e phone (extractJournalContent message) False
           (w1\<lparr>calls := calls w1 @ [SaveJournalEntry]\<rparr>))"
      unfolding w3_def by (rule updateUser_stage) simp
    also have "\<dots> = getCurrentStage p w1"
      by (rule getCurrentStage_users) (simp add: addJournalEntry_def Let_def)
    finally have "getCurrentStage p w3 = getCurrentStage p w1" .
    with f1 show "getCurrentStage p w3 = getCurrentStage p w" by simp
  qed
  have f4: "users w4 = users w3 \<and> crisisLogs w4 = crisisLogs w3 \<and> journals w4 = journals w3"
    and c4: "calls w4 = calls w3 @ [SendResponse (Some (getJournalAcknowledgment e))]"
    using sendResponse_frame [of e phone "Some (getJournalAcknowledgment e)" w3]
      sendResponse_calls [of e phone "Some (getJournalAcknowledgment e)" w3] s by simp_all
  have bs: "handleMessage_try e phone message w = (res, w4)" using body s by simp
  note fin = handleMessage_catch_frame [OF bs assms(1,2,3) ne]
  have fin': "users (snd (handleMessage e wd w)) = users w4 \<and>
         crisisLogs (snd (handleMessage e wd w)) = crisisLogs w4 \<and>
         journals (snd (handleMessage e wd w)) = journals w4 \<and>
         (calls (snd (handleMessage e wd w)) = calls w4 \<or>
          calls (snd (handleMessage e wd w)) = calls w4 @ [SendResponse (Some fallbackText)])"
    using fin body s by simp
  have st': "\<forall>p. getCurrentStage p (snd (handleMessage e wd w)) = getCurrentStage p w"
  proof
    fix p
    have "getCurrentStage p (snd (handleMessage e wd w)) = getCurrentStage p w3"
      using fin' f4 by (intro getCurrentStage_users) simp
    with s3 show "getCurrentStage p (snd (handleMessage e wd w)) = getCurrentStage p w" by simp
  qed
  have nc: "newCalls w (snd (handleMessage e wd w))
        = [SaveJournalEntry, SendResponse (Some (getJournalAcknowledgment e))] \<or>
      newCalls w (snd (handleMessage e wd w))
        = [SaveJournalEntry, SendResponse (Some (getJournalAcknowledgment e)),
           SendResponse (Some fallbackText)]"
    using fin' c4 c3 by (auto simp add: newCalls_def)
  have ex: "extractJournalContent ''j: I feel grateful today'' = ''I feel grateful today''"
    by code_simp
  have "journals (snd (handleMessage e wd w)) = (journals w)((phone, utcDay (now e)) \<mapsto>
               (case journals w (phone, utcDay (now e)) of None \<Rightarrow> [] | Some es \<Rightarrow> es) @
               [\<lparr>jcontent = extractJournalContent message, prompted = False,
                 jtimestamp = now e\<rparr>])"
    using fin' f4 f3 by simp
  moreover have "crisisLogs (snd (handleMessage e wd w)) = crisisLogs w"
    using fin' f4 l3 by simp
  moreover from nc have "DetectCrisis \<notin> set (newCalls w (snd (handleMessage e wd w))) \<and>
             ProcessOnboarding \<notin> set (newCalls w (snd (handleMessage e wd w))) \<and>
             GenerateResponse \<notin> set (newCalls w (snd (handleMessage e wd w))) \<and>
             (\<forall>n. AdvanceStage n \<notin> set (newCalls w (snd (handleMessage e wd w))))"
    by auto
  ultimately show ?thesis
    using st' ex extractJournalContent_stripped [OF assms(4)] by (simp add: Let_def)
qed

text \<open>The theorem at the sample event with the text \<open>j: I feel grateful today\<close>.\<close>

theorem journal_entry_short_circuits_witness:
  "isJournalEntry ''j: I feel grateful today'' \<and>
   journals (snd (handleMessage sampleEnv (sampleEvent ''j: I feel grateful today'')
       sampleWorld)) (''15551234567'', utcDay (now sampleEnv))
     = Some [\<lparr>jcontent = ''I feel grateful today'', prompted = False,
              jtimestamp = now sampleEnv\<rparr>] \<and>
   crisisLogs (snd (handleMessage sampleEnv (sampleEvent ''j: I feel grateful today'')
       sampleWorld)) = crisisLogs sampleWorld \<and>
   DetectCrisis \<notin> set (newCalls sampleWorld
      (snd (handleMessage sampleEnv (sampleEvent ''j: I feel grateful today'') sampleWorld)))"
proof -
  let ?m = "''j: I feel grateful today''"
  let ?p = "''15551234567''"
  have 1: "normalizePhoneNumber (phoneNumber (sampleEvent ?m)) = Some ?p"
    by (rule sample_phone)
  have 2: "?p \<noteq> []" by simp
  have 3: "content (sampleEvent ?m) = Some ?m" by (simp add: sampleEvent_def)
  have 4: "isJournalEntry ?m" by code_simp
  have 5: "\<forall>u. users sampleWorld ?p = Some u \<longrightarrow> stats u \<noteq> None"
    by (simp add: sampleWorld_def sampleUser_def)
  have j: "journals sampleWorld = Map.empty" by (simp add: sampleWorld_def)
  note th = journal_entry_short_circuits [OF 1 2 3 4 5, of sampleEnv]
  from th have c: "extractJournalContent ?m = ''I feel grateful today''"
    by (elim conjE)
  from th have "journals (snd (handleMessage sampleEnv (sampleEvent ?m) sampleWorld))
      = (journals sampleWorld)((?p, utcDay (now sampleEnv)) \<mapsto>
               (case journals sampleWorld (?p, utcDay (now sampleEnv)) of
                  None \<Rightarrow> [] | Some es \<Rightarrow> es) @
               [\<lparr>jcontent = extractJournalContent ?m, prompted = False,
                 jtimestamp = now sampleEnv\<rparr>])"
    unfolding Let_def by (elim conjE)
  then have a: "journals (snd (handleMessage sampleEnv (sampleEvent ?m) sampleWorld))
       (?p, utcDay (now sampleEnv))
     = Some [\<lparr>jcontent = ''I feel grateful today'', prompted = False,
              jtimestamp = now sampleEnv\<rparr>]"
    by (simp add: j c)
  from th have b: "crisisLogs (snd (handleMessage sampleEnv (sampleEvent ?m) sampleWorld))
      = crisisLogs sampleWorld"
    unfolding Let_def by (elim conjE)
  from th have d: "DetectCrisis \<notin> set (newCalls sampleWorld
      (snd (handleMessage sampleEnv (sampleEvent ?m) sampleWorld)))"
    unfolding Let_def by (elim conjE)
  from 4 a b d show ?thesis by (intro conjI)
qed


section \<open>The stage machine step by step\<close>

lemma advanceStage_stage:
  "getCurrentStage q (advanceStage p n w) = (if q = p then n else getCurrentStage q w)"
  by (simp add: advanceStage_def updateUser_def setUser_def getUser_def getCurrentStage_def
      Let_def)

lemma advanceStage_frame:
  "calls (advanceStage p n w) = calls w @ [AdvanceStage n] \<and>
   crisisLogs (advanceStage p n w) = crisisLogs w \<and>
   journals (advanceStage p n w) = journals w \<and>
   schedules (advanceStage p n w) = schedules w"
  by (simp add: advanceStage_def updateUser_def setUser_def Let_def)

lemma updateUser_frame:
  "calls (updateUser p f w) = calls w \<and> crisisLogs (updateUser p f w) = crisisLogs w \<and>
   journals (updateUser p f w) = journals w \<and> schedules (updateUser p f w) = schedules w"
  by (simp add: updateUser_def setUser_def Let_def)

lemma setupCheckIns_frame:
  "calls (setupCheckIns e p w) = calls w @ [SetupCheckIns] \<and>
   users (setupCheckIns e p w) = users w \<and>
   crisisLogs (setupCheckIns e p w) = crisisLogs w \<and>
   journals (setupCheckIns e p w) = journals w"
  by (simp add: setupCheckIns_def setSchedule_def Let_def)

lemma setupCheckIns_stage: "getCurrentStage q (setupCheckIns e p w) = getCurrentStage q w"
  by (rule getCurrentStage_users) (simp add: setupCheckIns_frame)

text \<open>The three ways the switch can end.\<close>

lemma onboardingSwitch_cases:
  "(\<exists>x. onboardingSwitch e p m u stage w = (Inl x, w)) \<or>
   (\<exists>r. onboardingSwitch e p m u stage w = (Inr (r, False), w)) \<or>
   (\<exists>r w0. stage < 4 \<and>
      onboardingSwitch e p m u stage w = (Inr (r, True), advanceStage p (Suc stage) w0) \<and>
      calls w0 = calls w \<and> crisisLogs w0 = crisisLogs w \<and>
      (\<forall>q. getCurrentStage q w0 = getCurrentStage q w))"
proof -
  have n: "\<And>n. calls (updateUser p (\<lambda>u. u\<lparr>name := Some n\<rparr>) w) = calls w \<and>
      crisisLogs (updateUser p (\<lambda>u. u\<lparr>name := Some n\<rparr>) w) = crisisLogs w \<and>
      (\<forall>q. getCurrentStage q (updateUser p (\<lambda>u. u\<lparr>name := Some n\<rparr>) w) = getCurrentStage q w)"
    by (simp add: updateUser_frame updateUser_stage)
  consider "stage = 0" | "stage = 1" | "stage = 2" | "stage = 3" | "stage \<ge> 4" by linarith
  then show ?thesis
  proof cases
    case 1
    then show ?thesis
      by (auto simp add: onboardingSwitch_def INITIAL_def ASK_NAME_def split: option.split)
  next
    case 2
    show ?thesis
    proof (cases "extractName m")
      case None
      with 2 show ?thesis
        by (simp add: onboardingSwitch_def INITIAL_def ASK_NAME_def)
    next
      case (Some nm)
      show ?thesis
      proof (cases "nm = []")
        case True
        with 2 Some show ?thesis by (simp add: onboardingSwitch_def INITIAL_def ASK_NAME_def)
      next
        case False
        with 2 Some have "onboardingSwitch e p m u stage w
            = (Inr (Some (getNameAcknowledgment e nm), True),
               advanceStage p (Suc stage) (updateUser p (\<lambda>u. u\<lparr>name := Some nm\<rparr>) w))"
          by (simp add: onboardingSwitch_def INITIAL_def ASK_NAME_def ASK_REASON_def Let_def
              numeral_2_eq_2)
        with 2 n [of nm] show ?thesis by auto
      qed
    qed
  next
    case 3
    then show ?thesis
      by (auto simp add: onboardingSwitch_def INITIAL_def ASK_NAME_def ASK_REASON_def
          ASK_CHECKIN_def split: option.split)
  next
    case 4
    then show ?thesis
      by (auto simp add: onboardingSwitch_def INITIAL_def ASK_NAME_def ASK_REASON_def
          ASK_CHECKIN_def COMPLETE_def split: option.split)
  next
    case 5
    then show ?thesis
      by (auto simp add: onboardingSwitch_def INITIAL_def ASK_NAME_def ASK_REASON_def
          ASK_CHECKIN_def)
  qed
qed


lemma isAdvance_simps:
  "isAdvance (AdvanceStage n)" "\<not> isAdvance SetupCheckIns" "\<not> isAdvance ProcessOnboarding"
  by (simp_all add: isAdvance_def)

text \<open>What one call of \<open>processOnboarding\<close> with the stored profile does.\<close>

lemma processOnboarding_summary:
  assumes "users w p = userArg"
  shows "\<exists>rest.
     calls (snd (processOnboarding e p m userArg w)) = calls w @ ProcessOnboarding # rest \<and>
     crisisLogs (snd (processOnboarding e p m userArg w)) = crisisLogs w \<and>
     (\<forall>q. q \<noteq> p \<longrightarrow>
        getCurrentStage q (snd (processOnboarding e p m userArg w)) = getCurrentStage q w) \<and>
     ((filter isAdvance rest = [] \<and>
       getCurrentStage p (snd (processOnboarding e p m userArg w)) = getCurrentStage p w) \<or>
      (getCurrentStage p w < 4 \<and>
       getCurrentStage p (snd (processOnboarding e p m userArg w)) = Suc (getCurrentStage p w) \<and>
       (filter isAdvance rest = [AdvanceStage (Suc (getCurrentStage p w))] \<or>
        getCurrentStage p w = 3 \<and>
        filter isAdvance rest = [AdvanceStage 4, AdvanceStage 4])))"
proof (cases userArg)
  case None
  then show ?thesis
    by (simp add: processOnboarding_def Let_def getCurrentStage_def getUser_def)
next
  case (Some u)
  define stage where "stage = onboardingStage u"
  define w0 where "w0 = w\<lparr>calls := calls w @ [ProcessOnboarding]\<rparr>"
  have cur: "getCurrentStage p w = stage"
    using assms Some by (simp add: getCurrentStage_def getUser_def stage_def)
  have w0: "calls w0 = calls w @ [ProcessOnboarding]" "crisisLogs w0 = crisisLogs w"
    "\<And>q. getCurrentStage q w0 = getCurrentStage q w"
    by (simp_all add: w0_def getCurrentStage_def getUser_def)
  let ?second = "stage = ASK_CHECKIN \<and> isCheckInResponse m"
  have second: "\<And>r a w1. onboardingSwitch e p m u stage w0 = (Inr (r, a), w1) \<Longrightarrow> ?second \<Longrightarrow>
      snd (processOnboarding e p m userArg w)
        = advanceStage p COMPLETE
            (if parseCheckInPreference m then setupCheckIns e p w1 else w1)"
    using Some by (simp add: processOnboarding_def Let_def stage_def w0_def)
  have first: "\<And>r a w1. onboardingSwitch e p m u stage w0 = (Inr (r, a), w1) \<Longrightarrow> \<not> ?second \<Longrightarrow>
      snd (processOnboarding e p m userArg w) = w1"
    using Some by (auto simp add: processOnboarding_def Let_def stage_def w0_def)
  from onboardingSwitch_cases [of e p m u stage w0]
  consider (err) x where "onboardingSwitch e p m u stage w0 = (Inl x, w0)"
    | (stay) r where "onboardingSwitch e p m u stage w0 = (Inr (r, False), w0)"
    | (adv) r w1 where "stage < 4"
        "onboardingSwitch e p m u stage w0 = (Inr (r, True), advanceStage p (Suc stage) w1)"
        "calls w1 = calls w0" "crisisLogs w1 = crisisLogs w0"
        "\<forall>q. getCurrentStage q w1 = getCurrentStage q w0"
    by blast
  then show ?thesis
  proof cases
    case err
    then have "snd (processOnboarding e p m userArg w) = w0"
      using Some by (simp add: processOnboarding_def Let_def stage_def w0_def)
    then show ?thesis using w0 by simp
  next
    case stay
    show ?thesis
    proof (cases ?second)
      case False
      then have "snd (processOnboarding e p m userArg w) = w0" using first [OF stay] by simp
      then show ?thesis using w0 by simp
    next
      case True
      then have eq: "snd (processOnboarding e p m userArg w)
        = advanceStage p COMPLETE
            (if parseCheckInPreference m then setupCheckIns e p w0 else w0)"
        using second [OF stay] by simp
      have s3: "stage = 3" using True by (simp add: ASK_CHECKIN_def)
      show ?thesis
      proof (cases "parseCheckInPreference m")
        case True
        then show ?thesis
          using eq w0 cur s3
          by (simp add: advanceStage_frame advanceStage_stage setupCheckIns_frame
              COMPLETE_def isAdvance_simps setupCheckIns_stage)
      next
        case False
        then show ?thesis
          using eq w0 cur s3
          by (simp add: advanceStage_frame advanceStage_stage COMPLETE_def isAdvance_simps)
      qed
    qed
  next
    case adv
    show ?thesis
    proof (cases ?second)
      case False
      then have "snd (processOnboarding e p m userArg w) = advanceStage p (Suc stage) w1"
        using first [OF adv(2)] by simp
      then show ?thesis
        using w0 cur adv(1,3,4,5)
        by (simp add: advanceStage_frame advanceStage_stage isAdvance_simps)
    next
      case True
      then have eq: "snd (processOnboarding e p m userArg w)
        = advanceStage p COMPLETE
            (if parseCheckInPreference m then setupCheckIns e p (advanceStage p (Suc stage) w1)
             else advanceStage p (Suc stage) w1)"
        using second [OF adv(2)] by simp
      have s3: "stage = 3" using True by (simp add: ASK_CHECKIN_def)
      show ?thesis
      proof (cases "parseCheckInPreference m")
        case True
        then show ?thesis
          using eq w0 cur s3 adv(3,4,5)
          by (simp add: advanceStage_frame advanceStage_stage setupCheckIns_frame
              COMPLETE_def isAdvance_simps setupCheckIns_stage)
      next
        case False
        then show ?thesis
          using eq w0 cur s3 adv(3,4,5)
          by (simp add: advanceStage_frame advanceStage_stage COMPLETE_def isAdvance_simps)
      qed
    qed
  qed
qed


section \<open>What the conversation engine leaves unchanged\<close>

lemma addMessage_frame:
  "users (addMessage e p r c t w) = users w \<and> calls (addMessage e p r c t w) = calls w \<and>
   crisisLogs (addMessage e p r c t w) = crisisLogs w"
  by (simp add: addMessage_def Let_def)

lemma addMessage_stage: "getCurrentStage q (addMessage e p r c t w) = getCurrentStage q w"
  by (rule getCurrentStage_users) (simp add: addMessage_frame)

lemma updateUserStats_frame:
  "users (updateUserStats e p m w) = users w \<and>
   calls (updateUserStats e p m w) = calls w \<and>
   crisisLogs (updateUserStats e p m w) = crisisLogs w"
  by (simp add: updateUserStats_def split: option.split)

lemma updateUserStats_stage:
  "getCurrentStage q (updateUserStats e p m w) = getCurrentStage q w"
  by (rule getCurrentStage_users) (simp add: updateUserStats_frame)

lemma generateResponse_frame:
  "getCurrentStage q (snd (generateResponse e p m w)) = getCurrentStage q w \<and>
   calls (snd (generateResponse e p m w)) = calls w @ [GenerateResponse] \<and>
   crisisLogs (snd (generateResponse e p m w)) = crisisLogs w"
proof -
  let ?w = "w\<lparr>calls := calls w @ [GenerateResponse]\<rparr>"
  have b: "getCurrentStage q ?w = getCurrentStage q w" "calls ?w = calls w @ [GenerateResponse]"
    "crisisLogs ?w = crisisLogs w"
    by (simp_all add: getCurrentStage_def getUser_def)
  obtain user w1 where g: "getOrCreateUser e p ?w = (user, w1)"
    by (cases "getOrCreateUser e p ?w")
  have f: "getCurrentStage q w1 = getCurrentStage q w" "calls w1 = calls w @ [GenerateResponse]"
    "crisisLogs w1 = crisisLogs w"
    using getOrCreateUser_frame [of q e p ?w] g b by simp_all
  show ?thesis
    using b f g
    by (simp add: generateResponse_def Let_def addMessage_stage addMessage_frame
        updateUserStats_frame updateUserStats_stage split: chat_outcome.split)
qed

section \<open>The path through the risk assessment\<close>

lemma detectCrisis_quiet_or_crisis:
  "isCrisis (fst (detectCrisis e p m h w)) \<or>
   snd (detectCrisis e p m h w) = w\<lparr>calls := calls w @ [DetectCrisis]\<rparr>"
  by (simp add: detectCrisis_def Let_def split: option.split jsnumber.split)

lemma detectCrisis_quiet:
  "\<not> isCrisis (fst (detectCrisis e p m h w))
   \<Longrightarrow> snd (detectCrisis e p m h w) = w\<lparr>calls := calls w @ [DetectCrisis]\<rparr>"
  using detectCrisis_quiet_or_crisis [of e p m h w] by blast

lemma detectCrisis_keyword:
  assumes "containsCrisisKeyword m"
  shows "keywordMatch (fst (detectCrisis e p m h w)) \<and>
         isCrisis (fst (detectCrisis e p m h w)) \<and>
         (riskLevel (fst (detectCrisis e p m h w)) = ''high'' \<or>
          riskLevel (fst (detectCrisis e p m h w)) = ''critical'') \<and>
         crisisResponse (fst (detectCrisis e p m h w))
           = getCrisisResponse (riskLevel (fst (detectCrisis e p m h w))) \<and>
         crisisResponse (fst (detectCrisis e p m h w)) \<noteq> None"
proof -
  have k: "keywordMatch (fst (detectCrisis e p m h w))"
    using assms by (simp add: detectCrisis_def Let_def split: option.split jsnumber.split)
  have l: "riskLevel (fst (detectCrisis e p m h w)) = ''high'' \<or>
          riskLevel (fst (detectCrisis e p m h w)) = ''critical''"
  proof (cases "assessWithLLM e m h")
    case None
    then show ?thesis
      using detectCrisis_no_assessment [OF None, of p w] assms
      by (simp add: keywordOnlyResult_def keywordFloor_def)
  next
    case (Some a)
    have "riskOrder (level a) > riskOrder ''high'' \<Longrightarrow> level a = ''critical''"
      by (simp add: riskOrder_def split: if_splits)
    then show ?thesis
      using detectCrisis_level [OF Some, of p w] assms by (auto simp add: keywordFloor_def)
  qed
  have c: "isCrisis (fst (detectCrisis e p m h w))"
    using l detectCrisis_isCrisis [of e p m h w] by auto
  have r: "crisisResponse (fst (detectCrisis e p m h w))
           = getCrisisResponse (riskLevel (fst (detectCrisis e p m h w)))"
    using c detectCrisis_crisisResponse [of e p m h w] by simp
  have "getCrisisResponse (riskLevel (fst (detectCrisis e p m h w))) \<noteq> None"
    using l by (auto simp add: getCrisisResponse_def)
  with k l c r show ?thesis by simp
qed

lemma detectCrisis_low:
  assumes "\<not> containsCrisisKeyword m" and "lowOrFailing e"
  shows "\<not> isCrisis (fst (detectCrisis e p m h w)) \<and>
         riskLevel (fst (detectCrisis e p m h w)) = ''low'' \<and>
         crisisResponse (fst (detectCrisis e p m h w)) = None"
proof -
  have l: "riskLevel (fst (detectCrisis e p m h w)) = ''low''"
  proof (cases "assessWithLLM e m h")
    case None
    then show ?thesis
      using detectCrisis_no_assessment [OF None, of p w] assms
      by (simp add: keywordOnlyResult_def keywordFloor_def)
  next
    case (Some a)
    then have "level a = ''low''"
      using assms(2)
      by (auto simp add: assessWithLLM_def lowOrFailing_def
          split: if_splits assess_outcome.splits)
    then show ?thesis
      using detectCrisis_level [OF Some, of p w] assms by (simp add: keywordFloor_def)
  qed
  then show ?thesis
    using detectCrisis_isCrisis [of e p m h w] detectCrisis_crisisResponse [of e p m h w]
    by simp
qed

lemma handleMessage_try_assessed:
  assumes "users w p = Some user" and "stats user = Some st" and "messageCount st \<noteq> 0"
    and "\<not> fst (fst (handleCommands e p m user w))" and "\<not> isJournalEntry m"
    and "detectCrisis e p m (getConversationHistory p 10 w) w = (crisis, w3)"
    and "\<not> (isCrisis crisis \<and> riskLevel crisis = ''critical'')"
    and "generateResponse e p m w3 = (resp, w4)"
  shows "handleMessage_try e p m w =
           (case processOnboarding e p m (getUser p w4) w4 of
              (Inl x, w') \<Rightarrow> (Inl x, w')
            | (Inr r, w') \<Rightarrow> sendResponse e p (composedReply crisis resp r) w')"
proof -
  have g: "getOrCreateUser e p w = (user, w)"
    using assms(1) by (simp add: getOrCreateUser_def getUser_def)
  have c: "handleCommands e p m user w = ((False, None), w)"
    using assms(4) by (rule handleCommands_unhandled)
  show ?thesis
    using g c assms(2,3,5,6,7,8)
    by (auto simp add: handleMessage_try_def Let_def composedReply_def
        split: prod.split sum.split)
qed

lemma normal_reply_path:
  assumes "normalizePhoneNumber (phoneNumber wd) = Some p" and "p \<noteq> []"
    and "content wd = Some m" and "m \<noteq> []"
    and "users w p = Some user" and "stats user = Some st" and "messageCount st \<noteq> 0"
    and "\<not> fst (fst (handleCommands e p m user w))" and "\<not> isJournalEntry m"
    and "\<not> isCrisis (fst (detectCrisis e p m (getConversationHistory p 10 w) w))"
  shows "take 3 (newCalls w (snd (handleMessage e wd w)))
           = [DetectCrisis, GenerateResponse, ProcessOnboarding] \<and>
         crisisLogs (snd (handleMessage e wd w)) = crisisLogs w"
proof -
  obtain crisis w3 where dc: "detectCrisis e p m (getConversationHistory p 10 w) w = (crisis, w3)"
    by (cases "detectCrisis e p m (getConversationHistory p 10 w) w")
  have nc: "\<not> isCrisis crisis" using assms(10) dc by simp
  have w3: "w3 = w\<lparr>calls := calls w @ [DetectCrisis]\<rparr>"
    using detectCrisis_quiet [OF assms(10)] dc by simp
  obtain resp w4 where gr: "generateResponse e p m w3 = (resp, w4)"
    by (cases "generateResponse e p m w3")
  have w4: "calls w4 = calls w @ [DetectCrisis, GenerateResponse]" "crisisLogs w4 = crisisLogs w"
    using generateResponse_frame [of p e p m w3] gr w3 by simp_all
  define T where "T = composedReply crisis resp"
  have t: "handleMessage_try e p m w =
           (case processOnboarding e p m (getUser p w4) w4 of
              (Inl x, w') \<Rightarrow> (Inl x, w')
            | (Inr r, w') \<Rightarrow> sendResponse e p (T r) w')"
    unfolding T_def using handleMessage_try_assessed [OF assms(5,6,7,8,9) dc _ gr] nc
    by blast
  obtain res w5 where po: "processOnboarding e p m (getUser p w4) w4 = (res, w5)"
    by (cases "processOnboarding e p m (getUser p w4) w4")
  have u: "users w4 p = getUser p w4" by (simp add: getUser_def)
  from processOnboarding_summary [OF u, of e m] po
  obtain rest where w5: "calls w5 = calls w4 @ ProcessOnboarding # rest"
      "crisisLogs w5 = crisisLogs w4"
    by auto
  obtain res6 w6 where t6: "handleMessage_try e p m w = (res6, w6)"
    by (cases "handleMessage_try e p m w")
  have w6: "crisisLogs w6 = crisisLogs w \<and>
      (\<exists>more. calls w6 = calls w @ DetectCrisis # GenerateResponse # ProcessOnboarding # more)"
  proof (cases res)
    case (Inl x)
    then have "w6 = w5" using t po t6 by simp
    then show ?thesis using w5 w4 by simp
  next
    case (Inr r)
    then have "sendResponse e p (T r) w5 = (res6, w6)" using t po t6 by simp
    then have "calls w6 = calls w5 @ [SendResponse (T r)]" "crisisLogs w6 = crisisLogs w5"
      using sendResponse_calls [of e p "T r" w5] sendResponse_frame [of e p "T r" w5]
      by simp_all
    then show ?thesis using w5 w4 by simp
  qed
  then obtain more where m6: "calls w6 = calls w @ DetectCrisis # GenerateResponse # ProcessOnboarding # more"
    by blast
  note fin = handleMessage_catch_frame [OF t6 assms(1,2,3,4)]
  from fin have "crisisLogs (snd (handleMessage e wd w)) = crisisLogs w" using w6 by simp
  moreover from fin m6 have "take 3 (newCalls w (snd (handleMessage e wd w)))
           = [DetectCrisis, GenerateResponse, ProcessOnboarding]"
    by (auto simp add: newCalls_def)
  ultimately show ?thesis by simp
qed


lemma killed_it_plain:
  "\<not> fst (fst (handleCommands e p ''I killed it at work today'' user w)) \<and>
   \<not> isJournalEntry ''I killed it at work today''"
proof -
  have low: "trim (toLowerCase ''I killed it at work today'') = ''i killed it at work today''"
    by code_simp
  show ?thesis
    by (simp add: handleCommands_def isJournalEntry_def journalPrefixes_def low startsWith_def)
qed

section \<open>C4: the keyword layer on two messages\<close>

lemma crisisKeywords_lower: "map toLowerCase crisisKeywords = crisisKeywords"
  by code_simp

lemma containsCrisisKeyword_phrases:
  "containsCrisisKeyword message =
     list_ex (includes_str (toLowerCase message))
       [''suicide'', ''kill myself'', ''end it all'', ''want to die'', ''hurt myself'',
        ''self harm'', ''self-harm'', ''can't go on'', ''end my life'',
        ''no reason to live'', ''better off dead'', ''kill me'']"
proof -
  have a: "list_ex (\<lambda>keyword. includes_str s (toLowerCase keyword)) crisisKeywords
      = list_ex (includes_str s) (map toLowerCase crisisKeywords)" for s
    by (simp add: list_ex_iff)
  have e: "\<not> list_ex (includes_str []) crisisKeywords"
    by (simp add: crisisKeywords_def startsWith_def)
  show ?thesis
  proof (cases "message = []")
    case True
    then show ?thesis using e by (simp add: containsCrisisKeyword_def crisisKeywords_def toLowerCase_def)
  next
    case False
    then show ?thesis
      unfolding containsCrisisKeyword_def Let_def a crisisKeywords_lower
      by (simp add: crisisKeywords_def)
  qed
qed

lemma includes_str_prefix: "includes_str (p @ ys) p"
proof (cases "p @ ys")
  case Nil
  then show ?thesis by simp
next
  case (Cons c cs)
  have "startsWith (p @ ys) p" by (simp add: startsWith_def)
  with Cons show ?thesis by simp
qed

lemma includes_str_appendI: "includes_str ys p \<Longrightarrow> includes_str (xs @ ys) p"
  by (induction xs) simp_all

lemma includes_str_middle: "includes_str (a @ p @ b) p"
  by (rule includes_str_appendI) (rule includes_str_prefix)

lemma crisisResponse_parts:
  assumes "l = ''high'' \<or> l = ''critical''"
  shows "\<exists>a b c. getCrisisResponse l
           = Some (a @ resourcesSuicide @ b @ resourcesCrisis @ c)"
proof -
  have h: "getCrisisResponse ''high'' = Some
        ((''Thank you for trusting me with this. I'm here for you, and I want you to know '' @
         ''that what you're going through is real and valid.'' @ nl @ nl @
         ''I also want to share some resources in case you need them:'' @ nl @
         '' '') @ resourcesSuicide @ (nl @ '' '') @ resourcesCrisis @ (nl @ nl @
         ''You don't have to go through this alone. How are you feeling right now?''))"
    by (simp add: getCrisisResponse_def)
  have c: "getCrisisResponse ''critical'' = Some
        ((''I hear you, and I'm really glad you're talking to me right now. '' @
         ''What you're feeling matters, and so do you.'' @ nl @ nl @
         ''I want to make sure you have support beyond just me. '' @
         ''Please reach out to someone who can help:'' @ nl @ nl @
         '' '') @ resourcesSuicide @ (nl @ '' '') @ resourcesCrisis @ (nl @ nl @
         ''These are real people who care and can help right now. '' @
         ''Are you safe at this moment?''))"
    by (simp add: getCrisisResponse_def)
  from assms h c show ?thesis by blast
qed

lemma crisisResponse_resources:
  assumes "l = ''high'' \<or> l = ''critical''"
  shows "\<exists>c. getCrisisResponse l = Some c \<and> c \<noteq> [] \<and>
       includes_str c ''988 Suicide & Crisis Lifeline'' \<and>
       includes_str c ''Text HOME to 741741 (Crisis Text Line)''"
proof -
  from crisisResponse_parts [OF assms] obtain a b c where
    g: "getCrisisResponse l = Some (a @ resourcesSuicide @ b @ resourcesCrisis @ c)"
    by blast
  have 1: "includes_str (a @ resourcesSuicide @ b @ resourcesCrisis @ c) resourcesSuicide"
    by (rule includes_str_middle)
  have "includes_str ((a @ resourcesSuicide @ b) @ resourcesCrisis @ c) resourcesCrisis"
    by (rule includes_str_middle)
  then have 2: "includes_str (a @ resourcesSuicide @ b @ resourcesCrisis @ c) resourcesCrisis"
    by simp
  have 3: "a @ resourcesSuicide @ b @ resourcesCrisis @ c \<noteq> []"
    by (simp add: resourcesSuicide_def)
  have s: "resourcesSuicide = ''988 Suicide & Crisis Lifeline''"
    and r: "resourcesCrisis = ''Text HOME to 741741 (Crisis Text Line)''"
    by (simp_all add: resourcesSuicide_def resourcesCrisis_def)
  from g 1 2 3 show ?thesis unfolding s r by blast
qed


text \<open>
  Claim C4.  The keyword layer lower-cases the message and looks for each of the twelve
  phrases of the list in it, so the letter case of the message does not matter.  It
  matches \<open>I want to kill myself\<close>: whatever the external layer answers, the result
  of \<open>detectCrisis\<close> has the keyword match, is a crisis of level \<open>high\<close> or
  \<open>critical\<close>, and carries the crisis response of its level, a text that is not empty
  and names the two crisis lines.  The layer does not match
  \<open>I killed it at work today\<close>: when the external layer fails or answers \<open>low\<close>,
  the result is no crisis, of level \<open>low\<close>, without a crisis response; and for a
  profile that is not new, \<open>handleMessage\<close> goes on with \<open>generateResponse\<close> and
  \<open>processOnboarding\<close> and leaves the crisis log as it was.
\<close>

theorem keyword_layer_examples:
  "containsCrisisKeyword ''I want to kill myself'' \<and>
   containsCrisisKeyword ''I WANT TO KILL MYSELF'' \<and>
   containsCrisisKeyword message =
     list_ex (includes_str (toLowerCase message))
       [''suicide'', ''kill myself'', ''end it all'', ''want to die'', ''hurt myself'',
        ''self harm'', ''self-harm'', ''can't go on'', ''end my life'',
        ''no reason to live'', ''better off dead'', ''kill me''] \<and>
   (let r = fst (detectCrisis e phone ''I want to kill myself'' hist w)
    in keywordMatch r \<and> isCrisis r \<and>
       (riskLevel r = ''high'' \<or> riskLevel r = ''critical'') \<and>
       crisisResponse r = getCrisisResponse (riskLevel r) \<and> crisisResponse r \<noteq> None \<and>
       (\<exists>c. crisisResponse r = Some c \<and> c \<noteq> [] \<and>
            includes_str c ''988 Suicide & Crisis Lifeline'' \<and>
            includes_str c ''Text HOME to 741741 (Crisis Text Line)'')) \<and>
   \<not> containsCrisisKeyword ''I killed it at work today'' \<and>
   (lowOrFailing e \<longrightarrow>
      (let r = fst (detectCrisis e phone ''I killed it at work today'' hist w)
       in \<not> isCrisis r \<and> riskLevel r = ''low'' \<and> crisisResponse r = None) \<and>
      (normalizePhoneNumber (phoneNumber wd) = Some phone \<and> phone \<noteq> [] \<and>
       content wd = Some ''I killed it at work today'' \<and>
       users w phone = Some user \<and> stats user = Some st \<and> messageCount st \<noteq> 0 \<longrightarrow>
         take 3 (newCalls w (snd (handleMessage e wd w)))
           = [DetectCrisis, GenerateResponse, ProcessOnboarding] \<and>
         crisisLogs (snd (handleMessage e wd w)) = crisisLogs w))"
proof -
  let ?m1 = "''I want to kill myself''"
  let ?m2 = "''I killed it at work today''"
  have k1: "containsCrisisKeyword ?m1" by code_simp
  have kU: "containsCrisisKeyword ''I WANT TO KILL MYSELF''" by code_simp
  have k2: "\<not> containsCrisisKeyword ?m2" by code_simp
  note ph = containsCrisisKeyword_phrases [of message]
  note a = detectCrisis_keyword [OF k1, of e phone hist w]
  have ex: "\<exists>c. crisisResponse (fst (detectCrisis e phone ?m1 hist w)) = Some c \<and> c \<noteq> [] \<and>
            includes_str c ''988 Suicide & Crisis Lifeline'' \<and>
            includes_str c ''Text HOME to 741741 (Crisis Text Line)''"
    using a crisisResponse_resources [of "riskLevel (fst (detectCrisis e phone ?m1 hist w))"]
    by simp
  have b: "lowOrFailing e \<Longrightarrow>
      \<not> isCrisis (fst (detectCrisis e phone ?m2 hist w)) \<and>
      riskLevel (fst (detectCrisis e phone ?m2 hist w)) = ''low'' \<and>
      crisisResponse (fst (detectCrisis e phone ?m2 hist w)) = None" for hist w
    using k2 by (rule detectCrisis_low)
  have c: "take 3 (newCalls w (snd (handleMessage e wd w)))
           = [DetectCrisis, GenerateResponse, ProcessOnboarding] \<and>
         crisisLogs (snd (handleMessage e wd w)) = crisisLogs w"
    if l: "lowOrFailing e"
      and h: "normalizePhoneNumber (phoneNumber wd) = Some phone \<and> phone \<noteq> [] \<and>
       content wd = Some ?m2 \<and>
       users w phone = Some user \<and> stats user = Some st \<and> messageCount st \<noteq> 0"
  proof -
    have q: "\<not> isCrisis (fst (detectCrisis e phone ?m2 (getConversationHistory phone 10 w) w))"
      using b [OF l] by simp
    from h have 1: "normalizePhoneNumber (phoneNumber wd) = Some phone" and 2: "phone \<noteq> []"
      and 3: "content wd = Some ?m2" and 5: "users w phone = Some user"
      and 6: "stats user = Some st" and 7: "messageCount st \<noteq> 0"
      by simp_all
    have 4: "?m2 \<noteq> []" by simp
    from killed_it_plain [of e phone user w]
    have 8: "\<not> fst (fst (handleCommands e phone ?m2 user w))" and 9: "\<not> isJournalEntry ?m2"
      by simp_all
    show ?thesis by (rule normal_reply_path [OF 1 2 3 4 5 6 7 8 9 q])
  qed
  show ?thesis
    unfolding Let_def
  proof (intro conjI impI)
    assume l: "lowOrFailing e"
    show "\<not> isCrisis (fst (detectCrisis e phone ?m2 hist w))"
      and "riskLevel (fst (detectCrisis e phone ?m2 hist w)) = ''low''"
      and "crisisResponse (fst (detectCrisis e phone ?m2 hist w)) = None"
      using b [OF l, of hist w] by simp_all
    assume h: "normalizePhoneNumber (phoneNumber wd) = Some phone \<and> phone \<noteq> [] \<and>
       content wd = Some ?m2 \<and>
       users w phone = Some user \<and> stats user = Some st \<and> messageCount st \<noteq> 0"
    show "take 3 (newCalls w (snd (handleMessage e wd w)))
           = [DetectCrisis, GenerateResponse, ProcessOnboarding]"
      and "crisisLogs (snd (handleMessage e wd w)) = crisisLogs w"
      using c [OF l h] by simp_all
  qed (rule k1 kU ph k2 ex a [THEN conjunct1] a [THEN conjunct2, THEN conjunct1]
      a [THEN conjunct2, THEN conjunct2, THEN conjunct1]
      a [THEN conjunct2, THEN conjunct2, THEN conjunct2, THEN conjunct1]
      a [THEN conjunct2, THEN conjunct2, THEN conjunct2, THEN conjunct2])+
qed

text \<open>
  The theorem at the sample event with the text \<open>I killed it at work today\<close>, in the
  sample environment with a failing request of the assessment.
\<close>

theorem keyword_layer_examples_witness:
  "lowOrFailing (sampleEnv\<lparr>assessReply := AssessApiError\<rparr>) \<and>
   take 3 (newCalls sampleWorld
     (snd (handleMessage (sampleEnv\<lparr>assessReply := AssessApiError\<rparr>)
        (sampleEvent ''I killed it at work today'') sampleWorld)))
     = [DetectCrisis, GenerateResponse, ProcessOnboarding] \<and>
   crisisLogs (snd (handleMessage (sampleEnv\<lparr>assessReply := AssessApiError\<rparr>)
        (sampleEvent ''I killed it at work today'') sampleWorld)) = crisisLogs sampleWorld"
proof -
  let ?e = "sampleEnv\<lparr>assessReply := AssessApiError\<rparr>"
  let ?m = "''I killed it at work today''"
  have l: "lowOrFailing ?e" by (simp add: lowOrFailing_def)
  have h: "normalizePhoneNumber (phoneNumber (sampleEvent ?m)) = Some ''15551234567'' \<and>
       ''15551234567'' \<noteq> [] \<and> content (sampleEvent ?m) = Some ?m \<and>
       users sampleWorld ''15551234567'' = Some sampleUser \<and>
       stats sampleUser = Some \<lparr>lastActive = 0, messageCount = 12, journalCount = 0\<rparr> \<and>
       messageCount \<lparr>lastActive = 0, messageCount = 12, journalCount = 0\<rparr> \<noteq> 0"
    using sample_phone [of ?m] sample_user by (simp add: sampleEvent_def sampleUser_def)
  note th = keyword_layer_examples [of "[]" ?e "''15551234567''" "[]" sampleWorld "sampleEvent ?m"
      sampleUser "\<lparr>lastActive = 0, messageCount = 12, journalCount = 0\<rparr>"]
  note c = th [THEN conjunct2, THEN conjunct2, THEN conjunct2, THEN conjunct2, THEN conjunct2,
      THEN mp, OF l, THEN conjunct2, THEN mp, OF h]
  note c1 = c [THEN conjunct1] and c2 = c [THEN conjunct2]
  from l c1 c2 show ?thesis by (intro conjI)
qed


section \<open>A text event without a crisis\<close>

lemma sendSegments_background: "background (snd (sendSegments e phone msgs w)) = background w"
  by (induction msgs arbitrary: w) (simp_all split: send_outcome.split)

lemma sendResponse_background: "background (snd (sendResponse e phone t w)) = background w"
  by (simp add: sendResponse_def Let_def sendSegments_background split: option.split)

lemma handleMessage_catch_background:
  assumes "handleMessage_try e phone message w = (res, w1)"
    and "normalizePhoneNumber (phoneNumber wd) = Some phone" and "phone \<noteq> []"
    and "content wd = Some message" and "message \<noteq> []"
  shows "background (snd (handleMessage e wd w)) = background w1"
proof (cases res)
  case (Inl x)
  with assms have "handleMessage e wd w = sendResponse e phone (Some fallbackText) w1"
    by (simp add: handleMessage_def)
  then show ?thesis by (simp add: sendResponse_background)
next
  case (Inr u)
  with assms have "handleMessage e wd w = (Inr u, w1)" by (simp add: handleMessage_def)
  then show ?thesis by simp
qed

lemma detectCrisis_quietEnv:
  assumes "\<not> containsCrisisKeyword m"
  shows "detectCrisis quietEnv p m h w
   = (\<lparr>isCrisis = False, riskLevel = ''low'', keywordMatch = False, crisisResponse = None,
       shouldFollowUp = False, followUpHours = JNull\<rparr>,
      w\<lparr>calls := calls w @ [DetectCrisis]\<rparr>)"
  using assms
  by (simp add: detectCrisis_def Let_def assessWithLLM_def quietEnv_def riskOrder_def)

lemma generateResponse_quietEnv:
  assumes "users w p = Some u"
  shows "generateResponse quietEnv p m w
   = (''I am here.'',
      (addMessage quietEnv p ''assistant'' ''I am here.'' []
        (addMessage quietEnv p ''user'' m [] (w\<lparr>calls := calls w @ [GenerateResponse]\<rparr>)))
        \<lparr>background := background w @ [Started p u]\<rparr>)"
  using assms
  by (simp add: generateResponse_def Let_def quietEnv_def getOrCreateUser_def getUser_def
      updateUserStats_def addMessage_def)

lemma generateResponse_quietEnv_frame:
  assumes "users w p = Some u"
  shows "users (snd (generateResponse quietEnv p m w)) = users w \<and>
         schedules (snd (generateResponse quietEnv p m w)) = schedules w \<and>
         calls (snd (generateResponse quietEnv p m w)) = calls w @ [GenerateResponse] \<and>
         background (snd (generateResponse quietEnv p m w)) = background w @ [Started p u]"
  by (simp add: generateResponse_quietEnv [OF assms] addMessage_def Let_def)

lemma processOnboarding_reason:
  assumes "onboardingStage u = ASK_REASON" and "stats u = Some st" and "5 \<le> messageCount st"
  shows "processOnboarding e p m (Some u) w
     = (Inr \<lparr>response = getOnboardingPrompt 2, stageAdvanced = True, currentStage = ASK_CHECKIN\<rparr>,
        advanceStage p ASK_CHECKIN (w\<lparr>calls := calls w @ [ProcessOnboarding]\<rparr>))"
  using assms
  by (simp add: processOnboarding_def onboardingSwitch_def Let_def INITIAL_def ASK_NAME_def
      ASK_REASON_def ASK_CHECKIN_def advanceStage_stage)

lemma processOnboarding_returns:
  assumes "stats u = Some st"
  shows "\<exists>r. fst (processOnboarding e p m (Some u) w) = Inr r"
  using assms
  by (simp add: processOnboarding_def onboardingSwitch_def Let_def split: option.split)

text \<open>
  A text event without a crisis keyword, for a profile that is not new, in the sample
  environment that assesses \<open>low\<close>: after \<open>detectCrisis\<close>, \<open>generateResponse\<close> and
  \<open>processOnboarding\<close>, \<open>handleMessage\<close> only sends.
\<close>

lemma quiet_event:
  assumes "normalizePhoneNumber (phoneNumber wd) = Some p" and "p \<noteq> []"
    and "content wd = Some m" and "m \<noteq> []"
    and "users w p = Some u" and "stats u = Some st" and "messageCount st \<noteq> 0"
    and "\<not> fst (fst (handleCommands quietEnv p m u w))" and "\<not> isJournalEntry m"
    and "\<not> containsCrisisKeyword m"
    and "w5 = snd (processOnboarding quietEnv p m (Some u)
                 (snd (generateResponse quietEnv p m (w\<lparr>calls := calls w @ [DetectCrisis]\<rparr>))))"
  shows "users (snd (handleMessage quietEnv wd w)) = users w5 \<and>
         schedules (snd (handleMessage quietEnv wd w)) = schedules w5 \<and>
         background (snd (handleMessage quietEnv wd w)) = background w5 \<and>
         (\<exists>sends. calls (snd (handleMessage quietEnv wd w)) = calls w5 @ sends \<and>
                   filter isAdvance sends = [])"
proof -
  let ?e = quietEnv
  define w3 where "w3 = w\<lparr>calls := calls w @ [DetectCrisis]\<rparr>"
  have u3: "users w3 p = Some u" by (simp add: w3_def assms(5))
  obtain resp w4 where gr: "generateResponse ?e p m w3 = (resp, w4)"
    by (cases "generateResponse ?e p m w3")
  have w4: "users w4 = users w3"
    using generateResponse_quietEnv_frame [OF u3, of m] gr by simp
  have gu: "getUser p w4 = Some u" using w4 u3 by (simp add: getUser_def)
  have dc: "detectCrisis ?e p m (getConversationHistory p 10 w) w
     = (\<lparr>isCrisis = False, riskLevel = ''low'', keywordMatch = False, crisisResponse = None,
       shouldFollowUp = False, followUpHours = JNull\<rparr>, w3)"
    unfolding w3_def using assms(10) by (rule detectCrisis_quietEnv)
  have t: "handleMessage_try ?e p m w =
           (case processOnboarding ?e p m (getUser p w4) w4 of
              (Inl x, w') \<Rightarrow> (Inl x, w')
            | (Inr r, w') \<Rightarrow> sendResponse ?e p (composedReply \<lparr>isCrisis = False,
                riskLevel = ''low'', keywordMatch = False, crisisResponse = None,
                shouldFollowUp = False, followUpHours = JNull\<rparr> resp r) w')"
    by (rule handleMessage_try_assessed [OF assms(5,6,7,8,9) dc _ gr]) simp
  have w5: "w5 = snd (processOnboarding ?e p m (Some u) w4)"
    using assms(11) gr by (simp add: w3_def)
  obtain r where r: "processOnboarding ?e p m (Some u) w4 = (Inr r, w5)"
    using processOnboarding_returns [OF assms(6), of ?e p m w4] w5
    by (cases "processOnboarding ?e p m (Some u) w4") auto
  obtain res w6 where t6: "handleMessage_try ?e p m w = (res, w6)"
    by (cases "handleMessage_try ?e p m w")
  obtain T where sr: "sendResponse ?e p T w5 = (res, w6)"
    using t t6 r gu by auto
  have w6: "calls w6 = calls w5 @ [SendResponse T]" "background w6 = background w5"
    "users w6 = users w5" "schedules w6 = schedules w5"
    using sendResponse_calls [of ?e p T w5] sendResponse_background [of ?e p T w5]
      sendResponse_frame [of ?e p T w5] sr
    by simp_all
  have b: "background (snd (handleMessage ?e wd w)) = background w6"
    by (rule handleMessage_catch_background [OF t6 assms(1,2,3,4)])
  note f = handleMessage_catch_frame [OF t6 assms(1,2,3,4)]
  from f have "calls (snd (handleMessage ?e wd w)) = calls w5 @ [SendResponse T] \<or>
      calls (snd (handleMessage ?e wd w))
        = calls w5 @ [SendResponse T, SendResponse (Some fallbackText)]"
    using w6 by auto
  then have "\<exists>sends. calls (snd (handleMessage ?e wd w)) = calls w5 @ sends \<and>
                   filter isAdvance sends = []"
    by (auto simp add: isAdvance_def)
  with b f w6 show ?thesis by simp
qed

section \<open>C5: the stage after the update of the statistics\<close>

text \<open>
  The two steps of the callback with nothing between them are the \<open>updateUser\<close> of the
  source.
\<close>

lemma continuation_uninterrupted:
  assumes "stats user = Some st"
  shows "snd (continuationStep e2 (fst (continuationStep e (Started p user) w)) w)
     = updateUser p (\<lambda>u. u\<lparr>stats := Some (st\<lparr>lastActive := now e,
                                              messageCount := messageCount st + 1\<rparr>)\<rparr>) w"
  using assms by (simp add: updateUser_def Let_def)

lemma hello_there_plain:
  "\<not> fst (fst (handleCommands e p ''hello there'' user w)) \<and>
   \<not> isJournalEntry ''hello there'' \<and> \<not> containsCrisisKeyword ''hello there''"
proof -
  have low: "trim (toLowerCase ''hello there'') = ''hello there''" by code_simp
  have k: "\<not> containsCrisisKeyword ''hello there''" by code_simp
  show ?thesis
    using k
    by (simp add: handleCommands_def isJournalEntry_def journalPrefixes_def low startsWith_def)
qed

text \<open>
  Claim C5 at one text event, \<open>hello there\<close>, for the profile in stage \<open>ASK_REASON\<close>
  with five messages counted.  \<open>handleMessage\<close> calls \<open>detectCrisis\<close> and
  \<open>generateResponse\<close>, which starts the update of the statistics and returns; it then
  reads the profile again and calls \<open>processOnboarding\<close>, which stores stage
  \<open>ASK_CHECKIN\<close>.  When the callback of the update reads the profile before that write
  and writes its merged profile after it, the stored stage is \<open>ASK_REASON\<close> again: the
  stage of the identity has gone from 3 back to 2, with no erasure.  When both steps of
  the callback come after \<open>processOnboarding\<close>, the stage stays \<open>ASK_CHECKIN\<close>.
\<close>

theorem stats_update_restores_older_stage:
  "(let p = ''15551234567''; m = ''hello there'';
        w1 = snd (detectCrisis quietEnv p m (getConversationHistory p 10 reasonWorld)
                    reasonWorld);
        w2 = snd (generateResponse quietEnv p m w1);
        w3 = stepBackground quietEnv 0 w2;
        w4 = snd (processOnboarding quietEnv p m (getUser p w3) w3);
        w5 = stepBackground quietEnv 0 w4;
        v4 = snd (processOnboarding quietEnv p m (getUser p w2) w2);
        v6 = stepBackground quietEnv 0 (stepBackground quietEnv 0 v4)
    in background w2 = [Started p reasonUser] \<and>
       map (getCurrentStage p) [reasonWorld, w1, w2, w3, w4, w5]
         = [ASK_REASON, ASK_REASON, ASK_REASON, ASK_REASON, ASK_CHECKIN, ASK_REASON] \<and>
       newCalls reasonWorld w4
         = [DetectCrisis, GenerateResponse, ProcessOnboarding, AdvanceStage ASK_CHECKIN] \<and>
       getCurrentStage p w5 < getCurrentStage p w4 \<and>
       getCurrentStage p v6 = ASK_CHECKIN \<and>
       users (snd (handleMessage quietEnv (sampleEvent m) reasonWorld)) = users v4 \<and>
       background (snd (handleMessage quietEnv (sampleEvent m) reasonWorld)) = background v4 \<and>
       filter isAdvance
           (newCalls reasonWorld (snd (handleMessage quietEnv (sampleEvent m) reasonWorld)))
         = [AdvanceStage ASK_CHECKIN])"
proof -
  let ?p = "''15551234567''" and ?m = "''hello there''"
  let ?e = quietEnv
  note pl = hello_there_plain [of ?e ?p reasonUser reasonWorld]
  have dc: "snd (detectCrisis ?e ?p ?m (getConversationHistory ?p 10 reasonWorld) reasonWorld)
      = reasonWorld\<lparr>calls := calls reasonWorld @ [DetectCrisis]\<rparr>"
    using pl by (simp add: detectCrisis_quietEnv)
  have u: "users reasonWorld ?p = Some reasonUser" by (simp add: reasonWorld_def)
  have st: "stats reasonUser = Some \<lparr>lastActive = 0, messageCount = 5, journalCount = 0\<rparr>"
    by (simp add: reasonUser_def)
  define w2 where "w2 = snd (generateResponse ?e ?p ?m
      (reasonWorld\<lparr>calls := calls reasonWorld @ [DetectCrisis]\<rparr>))"
  have w2: "users w2 = [?p \<mapsto> reasonUser]" "calls w2 = [DetectCrisis, GenerateResponse]"
    "background w2 = [Started ?p reasonUser]"
    unfolding w2_def
    by (simp_all add: generateResponse_quietEnv [of _ _ reasonUser] reasonWorld_def addMessage_def
        Let_def)
  define v4 where "v4 = snd (processOnboarding ?e ?p ?m (getUser ?p w2) w2)"
  have gu: "getUser ?p w2 = Some reasonUser" using w2 by (simp add: getUser_def)
  have v4: "v4 = advanceStage ?p ASK_CHECKIN (w2\<lparr>calls := calls w2 @ [ProcessOnboarding]\<rparr>)"
    unfolding v4_def gu
    by (subst processOnboarding_reason [OF _ st]) (simp_all add: reasonUser_def ASK_REASON_def)
  have ev: "normalizePhoneNumber (phoneNumber (sampleEvent ?m)) = Some ?p"
    "content (sampleEvent ?m) = Some ?m"
    by (rule sample_phone) (simp add: sampleEvent_def)
  have v4': "v4 = snd (processOnboarding ?e ?p ?m (Some reasonUser)
                 (snd (generateResponse ?e ?p ?m
                    (reasonWorld\<lparr>calls := calls reasonWorld @ [DetectCrisis]\<rparr>))))"
    using gu unfolding v4_def w2_def by simp
  note q = quiet_event [OF ev(1) _ ev(2) _ u st _ pl [THEN conjunct1]
      pl [THEN conjunct2, THEN conjunct1] pl [THEN conjunct2, THEN conjunct2] v4']
  have q1: "users (snd (handleMessage ?e (sampleEvent ?m) reasonWorld)) = users v4"
    and q2: "background (snd (handleMessage ?e (sampleEvent ?m) reasonWorld)) = background v4"
    and q3: "\<exists>sends. calls (snd (handleMessage ?e (sampleEvent ?m) reasonWorld)) = calls v4 @ sends \<and>
                   filter isAdvance sends = []"
    using q by simp_all
  have cv4: "calls v4 = [DetectCrisis, GenerateResponse, ProcessOnboarding, AdvanceStage ASK_CHECKIN]"
    using w2 by (simp add: v4 advanceStage_frame)
  have q4: "filter isAdvance
           (newCalls reasonWorld (snd (handleMessage ?e (sampleEvent ?m) reasonWorld)))
         = [AdvanceStage ASK_CHECKIN]"
    using q3 cv4 by (auto simp add: newCalls_def reasonWorld_def isAdvance_def)
  have run: "background w2 = [Started ?p reasonUser] \<and>
       map (getCurrentStage ?p) [reasonWorld, reasonWorld\<lparr>calls := calls reasonWorld @ [DetectCrisis]\<rparr>, w2,
           stepBackground ?e 0 w2,
           snd (processOnboarding ?e ?p ?m (getUser ?p (stepBackground ?e 0 w2)) (stepBackground ?e 0 w2)),
           stepBackground ?e 0 (snd (processOnboarding ?e ?p ?m (getUser ?p (stepBackground ?e 0 w2)) (stepBackground ?e 0 w2)))]
         = [ASK_REASON, ASK_REASON, ASK_REASON, ASK_REASON, ASK_CHECKIN, ASK_REASON] \<and>
       newCalls reasonWorld (snd (processOnboarding ?e ?p ?m (getUser ?p (stepBackground ?e 0 w2)) (stepBackground ?e 0 w2)))
         = [DetectCrisis, GenerateResponse, ProcessOnboarding, AdvanceStage ASK_CHECKIN] \<and>
       getCurrentStage ?p (stepBackground ?e 0 (snd (processOnboarding ?e ?p ?m (getUser ?p (stepBackground ?e 0 w2)) (stepBackground ?e 0 w2))))
         < getCurrentStage ?p (snd (processOnboarding ?e ?p ?m (getUser ?p (stepBackground ?e 0 w2)) (stepBackground ?e 0 w2))) \<and>
       getCurrentStage ?p (stepBackground ?e 0 (stepBackground ?e 0 v4)) = ASK_CHECKIN"
    unfolding v4 w2_def
    apply (simp add: generateResponse_quietEnv [of _ _ reasonUser] reasonWorld_def)
    apply (simp add: stepBackground_def addMessage_def Let_def getUser_def reasonUser_def blankUser_def
     processOnboarding_def onboardingSwitch_def INITIAL_def ASK_NAME_def ASK_REASON_def ASK_CHECKIN_def COMPLETE_def
     advanceStage_def updateUser_def setUser_def getCurrentStage_def newCalls_def)
    done
  show ?thesis
    unfolding Let_def dc
    using run q1 q2 q4 unfolding v4_def w2_def by simp
qed

section \<open>C6: two advancements in one call\<close>

lemma yes_plain:
  "\<not> fst (fst (handleCommands e p ''yes'' user w)) \<and>
   \<not> isJournalEntry ''yes'' \<and> \<not> containsCrisisKeyword ''yes'' \<and>
   isCheckInResponse ''yes'' \<and> parseCheckInPreference ''yes''"
proof -
  have low: "trim (toLowerCase ''yes'') = ''yes''" by code_simp
  have k: "\<not> containsCrisisKeyword ''yes''" by code_simp
  have r: "isCheckInResponse ''yes''" by code_simp
  have q: "parseCheckInPreference ''yes''" by code_simp
  show ?thesis
    using k r q
    by (simp add: handleCommands_def isJournalEntry_def journalPrefixes_def low startsWith_def)
qed

lemma processOnboarding_checkin_yes:
  assumes "onboardingStage u = ASK_CHECKIN" and "stats u = Some st" and "10 \<le> messageCount st"
    and "isCheckInResponse m" and "parseCheckInPreference m"
  shows "processOnboarding e p m (Some u) w
     = (Inr \<lparr>response = Some (''Great! I'll send you a gentle check-in from '' @
                    ''time to time. You can always tell me to stop if it '' @
                    ''gets annoying ''),
                  stageAdvanced = True, currentStage = COMPLETE\<rparr>,
        advanceStage p COMPLETE
          (setupCheckIns e p
             (advanceStage p COMPLETE (w\<lparr>calls := calls w @ [ProcessOnboarding]\<rparr>))))"
  using assms
  by (simp add: processOnboarding_def onboardingSwitch_def Let_def INITIAL_def ASK_NAME_def
      ASK_REASON_def ASK_CHECKIN_def COMPLETE_def advanceStage_stage)

text \<open>
  Claim C6 at the text \<open>yes\<close> for the profile in stage \<open>ASK_CHECKIN\<close> with ten
  messages counted.  The \<open>switch\<close> of \<open>processOnboarding\<close> makes the advancement of
  the message-count threshold and sets the response to the question about check-ins.  The
  block after the \<open>switch\<close> tests the stage read at the start of the call and not
  \<open>stageAdvanced\<close>, so in the same call it takes the text for the answer to that
  question, sets up the check-ins, replaces the question by its confirmation and makes the
  advancement of the check-in preference.  \<open>advanceStage\<close> is called twice in one call,
  the question is never sent, and the user has a schedule of check-ins.
\<close>

theorem checkin_stage_advances_twice:
  "(let p = ''15551234567'';
        res = fst (processOnboarding quietEnv p ''yes'' (getUser p checkinWorld) checkinWorld);
        w' = snd (processOnboarding quietEnv p ''yes'' (getUser p checkinWorld) checkinWorld)
    in getCurrentStage p checkinWorld = ASK_CHECKIN \<and>
       newCalls checkinWorld w'
         = [ProcessOnboarding, AdvanceStage COMPLETE, SetupCheckIns, AdvanceStage COMPLETE] \<and>
       length (filter isAdvance (newCalls checkinWorld w')) = 2 \<and>
       res = Inr \<lparr>response = Some (''Great! I'll send you a gentle check-in from '' @
                    ''time to time. You can always tell me to stop if it '' @
                    ''gets annoying ''),
                  stageAdvanced = True, currentStage = COMPLETE\<rparr> \<and>
       getOnboardingPrompt 3
         = Some (''Would you like me to check in on you sometimes? I can send a morning '' @
                 ''message or evening reflection prompt. Totally optional!'') \<and>
       schedules checkinWorld p = None \<and>
       schedules w' p = Some \<lparr>nextCheckIn = Some (getNext9AM quietEnv),
                                nextJournalPrompt = Some (getNext8PM quietEnv),
                                followUps = []\<rparr> \<and>
       filter isAdvance
           (newCalls checkinWorld (snd (handleMessage quietEnv (sampleEvent ''yes'') checkinWorld)))
         = [AdvanceStage COMPLETE, AdvanceStage COMPLETE] \<and>
       schedules (snd (handleMessage quietEnv (sampleEvent ''yes'') checkinWorld)) p \<noteq> None)"
proof -
  let ?p = "''15551234567''" and ?m = "''yes''"
  let ?e = quietEnv
  let ?u = "\<lparr>name = Some ''Sam'', onboardingStage = 3,
         stats = Some \<lparr>lastActive = 0, messageCount = 10, journalCount = 0\<rparr>\<rparr>"
  let ?st = "\<lparr>lastActive = 0, messageCount = 10, journalCount = 0\<rparr>"
  note pl = yes_plain [of ?e ?p ?u checkinWorld]
  have u: "users checkinWorld ?p = Some ?u" by (simp add: checkinWorld_def)
  have gu: "getUser ?p checkinWorld = Some ?u" by (simp add: getUser_def u)
  have st: "stats ?u = Some ?st" by simp
  have po: "processOnboarding ?e ?p ?m (Some ?u) w
     = (Inr \<lparr>response = Some (''Great! I'll send you a gentle check-in from '' @
                    ''time to time. You can always tell me to stop if it '' @
                    ''gets annoying ''),
                  stageAdvanced = True, currentStage = COMPLETE\<rparr>,
        advanceStage ?p COMPLETE
          (setupCheckIns ?e ?p
             (advanceStage ?p COMPLETE (w\<lparr>calls := calls w @ [ProcessOnboarding]\<rparr>))))" for w
    by (rule processOnboarding_checkin_yes [OF _ st])
      (simp_all add: ASK_CHECKIN_def pl)
  have eff: "calls (advanceStage ?p COMPLETE
          (setupCheckIns ?e ?p
             (advanceStage ?p COMPLETE (w\<lparr>calls := calls w @ [ProcessOnboarding]\<rparr>))))
       = calls w @ [ProcessOnboarding, AdvanceStage COMPLETE, SetupCheckIns, AdvanceStage COMPLETE]"
    "schedules (advanceStage ?p COMPLETE
          (setupCheckIns ?e ?p
             (advanceStage ?p COMPLETE (w\<lparr>calls := calls w @ [ProcessOnboarding]\<rparr>)))) ?p
       = Some \<lparr>nextCheckIn = Some (getNext9AM ?e), nextJournalPrompt = Some (getNext8PM ?e),
                                followUps = []\<rparr>" for w
    by (simp_all add: advanceStage_def updateUser_def setUser_def setupCheckIns_def setSchedule_def
        Let_def)
  have a: "getCurrentStage ?p checkinWorld = ASK_CHECKIN"
    by (simp add: getCurrentStage_def gu ASK_CHECKIN_def)
  have n: "calls checkinWorld = []" "schedules checkinWorld ?p = None"
    by (simp_all add: checkinWorld_def)
  have ev: "normalizePhoneNumber (phoneNumber (sampleEvent ?m)) = Some ?p"
    "content (sampleEvent ?m) = Some ?m"
    by (rule sample_phone) (simp add: sampleEvent_def)
  define w5 where "w5 = snd (processOnboarding ?e ?p ?m (Some ?u)
                 (snd (generateResponse ?e ?p ?m
                    (checkinWorld\<lparr>calls := calls checkinWorld @ [DetectCrisis]\<rparr>))))"
  note q = quiet_event [OF ev(1) _ ev(2) _ u st _ pl [THEN conjunct1]
      pl [THEN conjunct2, THEN conjunct1] pl [THEN conjunct2, THEN conjunct2, THEN conjunct1]
      w5_def]
  have q2: "schedules (snd (handleMessage ?e (sampleEvent ?m) checkinWorld)) = schedules w5"
    and q3: "\<exists>sends. calls (snd (handleMessage ?e (sampleEvent ?m) checkinWorld)) = calls w5 @ sends \<and>
                   filter isAdvance sends = []"
    using q by simp_all
  have u3: "users (checkinWorld\<lparr>calls := calls checkinWorld @ [DetectCrisis]\<rparr>) ?p = Some ?u"
    by (simp add: u)
  define w4 where "w4 = snd (generateResponse ?e ?p ?m
                    (checkinWorld\<lparr>calls := calls checkinWorld @ [DetectCrisis]\<rparr>))"
  have c4: "calls w4 = [DetectCrisis, GenerateResponse]"
    using generateResponse_quietEnv_frame [OF u3, of ?m] by (simp add: w4_def n)
  have w5: "w5 = advanceStage ?p COMPLETE
          (setupCheckIns ?e ?p
             (advanceStage ?p COMPLETE (w4\<lparr>calls := calls w4 @ [ProcessOnboarding]\<rparr>)))"
    unfolding w5_def w4_def [symmetric] by (simp only: po snd_conv)
  have c5: "calls w5 = [DetectCrisis, GenerateResponse, ProcessOnboarding, AdvanceStage COMPLETE,
      SetupCheckIns, AdvanceStage COMPLETE]"
    unfolding w5 eff(1) using c4 by simp
  have s5: "schedules w5 ?p \<noteq> None"
    unfolding w5 eff(2) by simp
  have h: "filter isAdvance
           (newCalls checkinWorld (snd (handleMessage ?e (sampleEvent ?m) checkinWorld)))
         = [AdvanceStage COMPLETE, AdvanceStage COMPLETE]"
    using q3 c5 by (auto simp add: newCalls_def n isAdvance_def)
  have g3: "getOnboardingPrompt 3
         = Some (''Would you like me to check in on you sometimes? I can send a morning '' @
                 ''message or evening reflection prompt. Totally optional!'')"
    by (simp add: getOnboardingPrompt_def)
  define w' where "w' = advanceStage ?p COMPLETE
          (setupCheckIns ?e ?p
             (advanceStage ?p COMPLETE
                (checkinWorld\<lparr>calls := calls checkinWorld @ [ProcessOnboarding]\<rparr>)))"
  have cw: "calls w' = [ProcessOnboarding, AdvanceStage COMPLETE, SetupCheckIns,
      AdvanceStage COMPLETE]"
    unfolding w'_def eff(1) by (simp add: n)
  have sw: "schedules w' ?p = Some \<lparr>nextCheckIn = Some (getNext9AM ?e),
      nextJournalPrompt = Some (getNext8PM ?e), followUps = []\<rparr>"
    unfolding w'_def by (rule eff(2))
  have pw: "processOnboarding ?e ?p ?m (Some ?u) checkinWorld
     = (Inr \<lparr>response = Some (''Great! I'll send you a gentle check-in from '' @
                    ''time to time. You can always tell me to stop if it '' @
                    ''gets annoying ''),
                  stageAdvanced = True, currentStage = COMPLETE\<rparr>, w')"
    unfolding w'_def by (rule po)
  have h2: "schedules (snd (handleMessage ?e (sampleEvent ?m) checkinWorld)) ?p \<noteq> None"
    using q2 s5 by simp
  show ?thesis
    unfolding Let_def gu pw fst_conv snd_conv
    using a n(2) h h2 g3 sw by (simp add: cw newCalls_def n(1) isAdvance_def)
qed

section \<open>C7: the check-in rolls over to the next morning\<close>

lemma getNextCheckInTime_local:
  "(getNextCheckInTime e + tzOffset e) div dayMs = (now e + tzOffset e) div dayMs + 1 \<and>
   (getNextCheckInTime e + tzOffset e) mod dayMs = 9 * 3600000"
proof -
  define x where "x = now e + tzOffset e"
  have d: "(x + dayMs) div dayMs = x div dayMs + 1"
    by (simp add: dayMs_def)
  have n: "getNextCheckInTime e + tzOffset e = (x div dayMs + 1) * dayMs + 9 * 3600000"
    using d by (simp add: getNextCheckInTime_def atLocalHour_def x_def add.assoc add.commute
        add.left_commute)
  have "((x div dayMs + 1) * dayMs + 9 * 3600000) div dayMs = x div dayMs + 1"
    by (simp add: dayMs_def)
  moreover have "((x div dayMs + 1) * dayMs + 9 * 3600000) mod dayMs = 9 * 3600000"
    by (simp add: dayMs_def)
  ultimately show ?thesis using n by (simp add: x_def)
qed

lemma getNextCheckInTime_later: "now e < getNextCheckInTime e"
proof -
  define x where "x = now e + tzOffset e"
  have d: "(x + dayMs) div dayMs = x div dayMs + 1"
    by (simp add: dayMs_def)
  have n: "getNextCheckInTime e + tzOffset e = (x div dayMs + 1) * dayMs + 9 * 3600000"
    using d by (simp add: getNextCheckInTime_def atLocalHour_def x_def add.assoc add.commute
        add.left_commute)
  have l: "x mod dayMs < dayMs" by (simp add: dayMs_def)
  have q: "dayMs * (x div dayMs) + x mod dayMs = x" by (rule mult_div_mod_eq)
  from l q have "x < dayMs * (x div dayMs) + dayMs" by linarith
  then have "x < (x div dayMs + 1) * dayMs" by (simp add: algebra_simps)
  then have "x < getNextCheckInTime e + tzOffset e" using n by simp
  then show ?thesis by (simp add: x_def)
qed

lemma sendFollowUps_schedules:
  "schedules (sendFollowUps e p t fs w) = schedules w"
proof (induction fs arbitrary: w)
  case Nil
  then show ?case by simp
next
  case (Cons f fs)
  have s: "\<And>w tr. schedules (sendProactiveMessage e p tr w) = schedules w"
    by (simp add: sendProactiveMessage_def addMessage_def Let_def
        split: option.split send_outcome.split)
  show ?case by (simp add: Cons.IH s)
qed

lemma processUserSchedule_checkin:
  assumes "getSchedule phone w = Some sched" and "isDue nowArg (nextCheckIn sched)"
  shows "\<exists>s'. getSchedule phone (processUserSchedule e jp phone nowArg w) = Some s' \<and>
           nextCheckIn s' = Some (getNextCheckInTime e)"
proof -
  have p: "\<And>w tr. schedules (sendProactiveMessage e phone tr w) = schedules w"
    by (simp add: sendProactiveMessage_def addMessage_def Let_def
        split: option.split send_outcome.split)
  have j: "\<And>w. schedules (sendJournalPrompt e phone jp w) = schedules w"
    by (simp add: sendJournalPrompt_def addMessage_def Let_def split: send_outcome.split)
  show ?thesis
    using assms
    by (simp add: processUserSchedule_def Let_def getSchedule_def setSchedule_def
        sendFollowUps_schedules p j)
qed

text \<open>
  Claim C7.  When \<open>processUserSchedule\<close> finds the check-in due at the tick time
  \<open>nowArg\<close>, and the clock read for the rollover is not behind the tick time, the
  stored \<open>nextCheckIn\<close> becomes 09:00 local time of the day after the clock's day.  The
  new value is greater than the prior one, than the tick time and than the clock, and
  the due test fails for it at every time before it: the same due instant is not taken
  again.
\<close>

theorem checkin_rollover:
  assumes "getSchedule phone w = Some sched" and "nextCheckIn sched = Some prior"
    and "isDue nowArg (nextCheckIn sched)" and "nowArg \<le> now e"
  shows "\<exists>s'. getSchedule phone (processUserSchedule e jp phone nowArg w) = Some s' \<and>
           nextCheckIn s' = Some (getNextCheckInTime e) \<and>
           (getNextCheckInTime e + tzOffset e) div dayMs = (now e + tzOffset e) div dayMs + 1 \<and>
           (getNextCheckInTime e + tzOffset e) mod dayMs = 9 * 3600000 \<and>
           prior < getNextCheckInTime e \<and> nowArg < getNextCheckInTime e \<and>
           now e < getNextCheckInTime e \<and>
           (\<forall>later. later < getNextCheckInTime e \<longrightarrow> \<not> isDue later (nextCheckIn s'))"
proof -
  from processUserSchedule_checkin [OF assms(1,3), of e jp]
  obtain s' where s: "getSchedule phone (processUserSchedule e jp phone nowArg w) = Some s'"
    "nextCheckIn s' = Some (getNextCheckInTime e)"
    by blast
  have l: "now e < getNextCheckInTime e" by (rule getNextCheckInTime_later)
  from assms(2,3) have "prior \<le> nowArg" by (simp add: isDue_def)
  with l assms(4) have "prior < getNextCheckInTime e" "nowArg < getNextCheckInTime e"
    by simp_all
  moreover have "\<forall>later. later < getNextCheckInTime e \<longrightarrow> \<not> isDue later (nextCheckIn s')"
    using s(2) by (simp add: isDue_def)
  ultimately show ?thesis using s l getNextCheckInTime_local [of e] by blast
qed

text \<open>
  The theorem at the sample schedule, whose check-in was due at 09:00 of the sample day,
  with a tick one second before the sample clock.
\<close>

theorem checkin_rollover_witness:
  "isDue 1699999999000 (Some 1699952400000) \<and>
   (\<exists>s'. getSchedule ''15551234567''
            (processUserSchedule sampleEnv ''A moment to reflect'' ''15551234567''
               1699999999000 scheduledWorld) = Some s' \<and>
         nextCheckIn s' = Some (getNextCheckInTime sampleEnv) \<and>
         1699952400000 < getNextCheckInTime sampleEnv)"
proof -
  let ?s = "\<lparr>nextCheckIn = Some 1699952400000, nextJournalPrompt = Some 1700078400000,
         followUps = []\<rparr>"
  have 1: "getSchedule ''15551234567'' scheduledWorld = Some ?s"
    by (simp add: getSchedule_def scheduledWorld_def)
  have 2: "nextCheckIn ?s = Some 1699952400000" by simp
  have 3: "isDue 1699999999000 (nextCheckIn ?s)" by (simp add: isDue_def)
  have 4: "1699999999000 \<le> now sampleEnv" by (simp add: sampleEnv_def)
  from checkin_rollover [OF 1 2 3 4, of "''A moment to reflect''"] 3 show ?thesis by auto
qed

section \<open>C2: the idempotency check is a check followed by a set\<close>

text \<open>
  Claim C2 at two deliveries of the event \<open>evt-1\<close> within the window of 300 seconds.
  When both checks run before either set, both deliveries are answered \<open>received\<close>
  and the event is processed twice; when the first delivery ends before the second
  begins, the second is answered \<open>duplicate\<close>.
\<close>

theorem interleaved_deliveries_both_processed:
  "fst (runDeliveries ''evt-1'' [(0, 1000), (1, 1001), (0, 1002), (1, 1003)]
          ([Arrived, Arrived], Map.empty))
     = [Responded ''received'', Responded ''received''] \<and>
   fst (runDeliveries ''evt-1'' [(0, 1000), (0, 1001), (1, 1002), (1, 1003)]
          ([Arrived, Arrived], Map.empty))
     = [Responded ''received'', Responded ''duplicate'']"
  by (simp add: checkIdempotency_def setIdempotency_def Let_def)


text \<open>With the conditional set of \<open>acquireLock\<close> the second of two claims fails.\<close>

lemma acquireLock_once:
  "t2 < t1 + ttl * 1000 \<Longrightarrow>
   fst (acquireLock k ttl t2 (snd (acquireLock k ttl t1 Map.empty))) = False"
  by (simp add: acquireLock_def)

end
